theory Spec2Isabelle
  imports Main "HOL-Library.Multiset" "HOL-Library.Char_ord" "HOL-Library.List_Lexorder"
begin

section \<open>The converter \<^verbatim>\<open>sigid_csv_to_json.py\<close>\<close>

text \<open>
  The program reads \<^verbatim>\<open>db.csv\<close> line by line, splits every line on \<^verbatim>\<open>*\<close>, builds one
  dictionary per line of more than seven fields, keeps it unless both frequencies are zero,
  sorts the kept dictionaries by decreasing bandwidth and dumps them as JSON into
  \<^verbatim>\<open>frequencies.json\<close>.

  Text is modelled by \<^typ>\<open>string\<close>: a character is a code point below 256. The file
  system is outside the model: \<open>main\<close> takes the text of \<^verbatim>\<open>db.csv\<close> and returns the
  text written to \<^verbatim>\<open>frequencies.json\<close>, what was printed, and the exception raised.
  The built-ins the program calls (\<^verbatim>\<open>str.split\<close>, \<^verbatim>\<open>int\<close>, \<^verbatim>\<open>str\<close>,
  \<^verbatim>\<open>list.sort\<close>, \<^verbatim>\<open>json.dump\<close>) are modelled as CPython 3.11 defines them.
\<close>

subsection \<open>Built-ins: \<^verbatim>\<open>str.split\<close> and \<^verbatim>\<open>int\<close>\<close>

text \<open>\<^verbatim>\<open>s.split(sep)\<close> with a one-character separator: one more field than separators,
  empty fields kept.\<close>

fun str_split :: "string \<Rightarrow> char \<Rightarrow> string list" where
  "str_split [] sep = [[]]"
| "str_split (c # cs) sep =
     (if c = sep then [] # str_split cs sep
      else (case str_split cs sep of
              [] \<Rightarrow> [[c]]
            | w # ws \<Rightarrow> (c # w) # ws))"

text \<open>The white space \<^verbatim>\<open>int\<close> strips from both ends of its argument: tab to carriage
  return and the blank, and of the code points from 128 on those that are Unicode white
  space, \<^verbatim>\<open>0x85\<close> and \<^verbatim>\<open>0xa0\<close>. The separators \<^verbatim>\<open>0x1c\<close> to \<^verbatim>\<open>0x1f\<close> are not stripped.\<close>

definition is_space :: "char \<Rightarrow> bool" where
  "is_space c =
     (let n = (of_char c :: nat)
      in (9 \<le> n \<and> n \<le> 13) \<or> n = 32 \<or> n = 133 \<or> n = 160)"

definition strip :: "string \<Rightarrow> string" where
  "strip s = rev (dropWhile is_space (rev (dropWhile is_space s)))"

definition is_digit :: "char \<Rightarrow> bool" where
  "is_digit c = (48 \<le> (of_char c :: nat) \<and> (of_char c :: nat) \<le> 57)"

definition digit_val :: "char \<Rightarrow> int" where
  "digit_val c = int (of_char c) - 48"

text \<open>The digits after the first one; single underscores may separate digits.\<close>

fun more_digits :: "int \<Rightarrow> string \<Rightarrow> int option" where
  "more_digits acc [] = Some acc"
| "more_digits acc [c] =
     (if is_digit c then Some (acc * 10 + digit_val c) else None)"
| "more_digits acc (c # d # ds) =
     (if is_digit c then more_digits (acc * 10 + digit_val c) (d # ds)
      else if c = CHR ''_'' \<and> is_digit d then more_digits (acc * 10 + digit_val d) ds
      else None)"

text \<open>\<^verbatim>\<open>int\<close> refuses a literal of more than 4300 digits (underscores do not count).\<close>

definition max_str_digits :: int where
  "max_str_digits = 4300"

definition unsigned_int :: "string \<Rightarrow> int option" where
  "unsigned_int s =
     (case s of
        [] \<Rightarrow> None
      | d # ds \<Rightarrow>
          if is_digit d then
            (if max_str_digits < int (length (filter is_digit s)) then None
             else more_digits (digit_val d) ds)
          else None)"

text \<open>\<^verbatim>\<open>int(s)\<close> in base 10: white space stripped, an optional sign, then digits.
  \<open>None\<close> stands for the \<^verbatim>\<open>ValueError\<close> it raises.\<close>

definition py_int :: "string \<Rightarrow> int option" where
  "py_int s =
     (case strip s of
        [] \<Rightarrow> None
      | c # cs \<Rightarrow>
          if c = CHR ''-'' then map_option uminus (unsigned_int cs)
          else if c = CHR ''+'' then unsigned_int cs
          else unsigned_int (c # cs))"

subsection \<open>Built-in: \<^verbatim>\<open>str\<close> of a dictionary\<close>

definition hex_digit :: "nat \<Rightarrow> char" where
  "hex_digit n = ''0123456789abcdef'' ! n"

text \<open>\<^verbatim>\<open>repr\<close> of a string: single quotes unless the string holds a single quote and
  no double quote; the quote and the backslash escaped; control characters and the
  unprintable code points escaped.\<close>

definition repr_quote :: "string \<Rightarrow> char" where
  "repr_quote s = (if CHR 0x27 \<in> set s \<and> CHR 0x22 \<notin> set s then CHR 0x22 else CHR 0x27)"

definition repr_char :: "char \<Rightarrow> char \<Rightarrow> string" where
  "repr_char q c =
     (let n = (of_char c :: nat) in
      if c = q \<or> c = CHR 0x5C then [CHR 0x5C, c]
      else if n = 9 then [CHR 0x5C, CHR ''t'']
      else if n = 10 then [CHR 0x5C, CHR ''n'']
      else if n = 13 then [CHR 0x5C, CHR ''r'']
      else if n < 32 \<or> (127 \<le> n \<and> n \<le> 160) \<or> n = 173
        then [CHR 0x5C, CHR ''x'', hex_digit (n div 16), hex_digit (n mod 16)]
      else [c])"

definition repr_str :: "string \<Rightarrow> string" where
  "repr_str s = (let q = repr_quote s in [q] @ concat (map (repr_char q) s) @ [q])"

text \<open>\<^verbatim>\<open>str\<close> of an integer: its decimal digits, after a minus sign when it is negative.\<close>

function str_digits :: "int \<Rightarrow> string" where
  "str_digits n =
     (if n < 10 then [hex_digit (nat n)]
      else str_digits (n div 10) @ [hex_digit (nat (n mod 10))])"
  by pat_completeness auto
termination
  by (relation "measure nat") auto

declare str_digits.simps [simp del]

definition str_int :: "int \<Rightarrow> string" where
  "str_int i = (if i < 0 then CHR ''-'' # str_digits (- i) else str_digits i)"

text \<open>\<open>join\<close> is \<^verbatim>\<open>sep.join(xs)\<close>.\<close>

fun join :: "string \<Rightarrow> string list \<Rightarrow> string" where
  "join sep [] = []"
| "join sep [x] = x"
| "join sep (x # y # ys) = x @ sep @ join sep (y # ys)"

subsection \<open>The loop over the lines\<close>

text \<open>The dictionary \<^verbatim>\<open>current\<close> has four fixed keys; its fields are listed in the
  order in which the program's dictionary display inserts them.\<close>

record signal =
  freqStart :: int
  freqStop :: int
  description :: string
  url :: string

datatype pyval = PInt int | PStr string

definition items :: "signal \<Rightarrow> (string \<times> pyval) list" where
  "items d = [(''freqStart'', PInt (freqStart d)), (''freqStop'', PInt (freqStop d)),
              (''description'', PStr (description d)), (''url'', PStr (url d))]"

fun repr_val :: "pyval \<Rightarrow> string" where
  "repr_val (PInt i) = str_int i"
| "repr_val (PStr s) = repr_str s"

definition str_dict :: "signal \<Rightarrow> string" where
  "str_dict d =
     ''{'' @ join '', '' (map (\<lambda>(k, v). repr_str k @ '': '' @ repr_val v) (items d)) @ ''}''"

datatype error = ValueError

text \<open>The program's state: the list \<^verbatim>\<open>out\<close>, and the lines printed so far (one entry
  for each call of \<^verbatim>\<open>print\<close>).\<close>

record state =
  out :: "signal list"
  stdout :: "string list"

definition loop_body :: "string \<Rightarrow> state \<Rightarrow> error + state" where
  "loop_body line st =
     (let data = str_split line CHR ''*'' in
      if length data > 7 then
        (case py_int (data ! 1) of
           None \<Rightarrow> Inl ValueError
         | Some fStart \<Rightarrow>
             (case py_int (data ! 2) of
                None \<Rightarrow> Inl ValueError
              | Some fStop \<Rightarrow>
                  (let current = \<lparr>freqStart = fStart, freqStop = fStop,
                                   description = data ! 0, url = data ! 7\<rparr>
                   in if fStart \<noteq> 0 \<or> fStop \<noteq> 0
                      then Inr (st\<lparr>out := out st @ [current]\<rparr>)
                      else Inr (st\<lparr>stdout := stdout st @ [''Skipping: '' @ str_dict current]\<rparr>))))
      else Inr st)"

text \<open>The \<^verbatim>\<open>for\<close> loop: it stops at the first exception, with the state reached.\<close>

fun for_loop :: "string list \<Rightarrow> state \<Rightarrow> state \<times> error option" where
  "for_loop [] st = (st, None)"
| "for_loop (line # rest) st =
     (case loop_body line st of
        Inl e \<Rightarrow> (st, Some e)
      | Inr st' \<Rightarrow> for_loop rest st')"

subsection \<open>Reading the file\<close>

text \<open>\<^verbatim>\<open>open("db.csv", "r")\<close> reads in text mode: \<^verbatim>\<open>\r\n\<close> and a lone \<^verbatim>\<open>\r\<close>
  are handed to the program as \<^verbatim>\<open>\n\<close>.\<close>

fun universal_newlines :: "string \<Rightarrow> string" where
  "universal_newlines [] = []"
| "universal_newlines [c] = [if c = CHR 0x0D then CHR 0x0A else c]"
| "universal_newlines (c # d # ds) =
     (if c = CHR 0x0D \<and> d = CHR 0x0A then CHR 0x0A # universal_newlines ds
      else if c = CHR 0x0D then CHR 0x0A # universal_newlines (d # ds)
      else c # universal_newlines (d # ds))"

text \<open>Iterating over the file yields its lines, each with its terminating \<^verbatim>\<open>\n\<close>
  (the last line has none when the file does not end in one).\<close>

fun readlines :: "string \<Rightarrow> string list" where
  "readlines [] = []"
| "readlines (c # cs) =
     (if c = CHR 0x0A then [c] # readlines cs
      else (case readlines cs of
              [] \<Rightarrow> [[c]]
            | l # ls \<Rightarrow> (c # l) # ls))"

definition file_lines :: "string \<Rightarrow> string list" where
  "file_lines db_csv = readlines (universal_newlines db_csv)"

subsection \<open>Built-ins: \<^verbatim>\<open>list.sort\<close> and \<^verbatim>\<open>json.dump\<close>\<close>

text \<open>\<^verbatim>\<open>xs.sort(key=k, reverse=r)\<close>: a stable sort by increasing key; with
  \<^verbatim>\<open>reverse=True\<close> the list is reversed before and after it.\<close>

definition list_sort :: "('a \<Rightarrow> int) \<Rightarrow> bool \<Rightarrow> 'a list \<Rightarrow> 'a list" where
  "list_sort key reverse xs =
     (if reverse then rev (sort_key key (rev xs)) else sort_key key xs)"

text \<open>A JSON string as \<^verbatim>\<open>json.dump\<close> writes it (\<^verbatim>\<open>ensure_ascii\<close> is on): only the
  characters from the blank to \<^verbatim>\<open>~\<close>, other than the double quote and the backslash,
  are written as they are.\<close>

definition json_char :: "char \<Rightarrow> string" where
  "json_char c =
     (let n = (of_char c :: nat) in
      if c = CHR 0x22 then [CHR 0x5C, CHR 0x22]
      else if c = CHR 0x5C then [CHR 0x5C, CHR 0x5C]
      else if n = 10 then [CHR 0x5C, CHR ''n'']
      else if n = 13 then [CHR 0x5C, CHR ''r'']
      else if n = 9 then [CHR 0x5C, CHR ''t'']
      else if n = 12 then [CHR 0x5C, CHR ''f'']
      else if n = 8 then [CHR 0x5C, CHR ''b'']
      else if n < 32 \<or> 126 < n
        then [CHR 0x5C, CHR ''u'', CHR ''0'', CHR ''0'', hex_digit (n div 16), hex_digit (n mod 16)]
      else [c])"

definition json_str :: "string \<Rightarrow> string" where
  "json_str s = [CHR 0x22] @ concat (map json_char s) @ [CHR 0x22]"

fun json_val :: "pyval \<Rightarrow> string" where
  "json_val (PInt i) = str_int i"
| "json_val (PStr s) = json_str s"

definition json_dict :: "bool \<Rightarrow> (string \<times> pyval) list \<Rightarrow> string" where
  "json_dict sort_keys its =
     ''{'' @ join '', '' (map (\<lambda>(k, v). json_str k @ '': '' @ json_val v)
                              (if sort_keys then sort_key fst its else its)) @ ''}''"

definition json_dump :: "signal list \<Rightarrow> bool \<Rightarrow> string" where
  "json_dump xs sort_keys = ''['' @ join '', '' (map (\<lambda>d. json_dict sort_keys (items d)) xs) @ '']''"

text \<open>The characters from the blank to \<^verbatim>\<open>~\<close>.\<close>

definition printable :: "char \<Rightarrow> bool" where
  "printable c = (32 \<le> (of_char c :: nat) \<and> (of_char c :: nat) \<le> 126)"

subsection \<open>The program\<close>

definition bandwidth :: "signal \<Rightarrow> int" where
  "bandwidth x = freqStop x - freqStart x"

definition run_loop :: "string \<Rightarrow> state \<times> error option" where
  "run_loop db_csv = for_loop (file_lines db_csv) \<lparr>out = [], stdout = []\<rparr>"

text \<open>The list \<^verbatim>\<open>out\<close> after \<^verbatim>\<open>out.sort(...)\<close>.\<close>

definition sorted_out :: "string \<Rightarrow> signal list" where
  "sorted_out db_csv = list_sort bandwidth True (out (fst (run_loop db_csv)))"

text \<open>What a run leaves behind: the text of \<^verbatim>\<open>frequencies.json\<close> (\<open>None\<close> when the
  file was never opened), the lines printed, and the exception that ended the run.\<close>

record result =
  frequencies_json :: "string option"
  printed :: "string list"
  raised :: "error option"

definition main :: "string \<Rightarrow> result" where
  "main db_csv =
     (case run_loop db_csv of
        (st, Some e) \<Rightarrow> \<lparr>frequencies_json = None, printed = stdout st, raised = Some e\<rparr>
      | (st, None) \<Rightarrow>
          \<lparr>frequencies_json = Some (json_dump (sorted_out db_csv) True),
           printed = stdout st, raised = None\<rparr>)"

subsection \<open>What one line contributes\<close>

text \<open>The loop body run on a line from the empty state: the entries the line appends to
  \<^verbatim>\<open>out\<close>, the lines it prints, and whether it raises.\<close>

definition line_out :: "string \<Rightarrow> signal list" where
  "line_out line =
     (case loop_body line \<lparr>out = [], stdout = []\<rparr> of Inl e \<Rightarrow> [] | Inr st \<Rightarrow> out st)"

definition line_printed :: "string \<Rightarrow> string list" where
  "line_printed line =
     (case loop_body line \<lparr>out = [], stdout = []\<rparr> of Inl e \<Rightarrow> [] | Inr st \<Rightarrow> stdout st)"

definition line_raises :: "string \<Rightarrow> bool" where
  "line_raises line =
     (case loop_body line \<lparr>out = [], stdout = []\<rparr> of Inl e \<Rightarrow> True | Inr st \<Rightarrow> False)"

subsection \<open>Reading the dumped text back\<close>

text \<open>
  A reader for the round trip: \<open>json_loads\<close> follows \<^verbatim>\<open>json.loads\<close> on the texts the
  program can write, arrays of objects whose members are strings and integers. It gives
  the list of dictionaries read, each as the list of its items in the order of the text,
  and \<open>None\<close> on any other text.
\<close>

text \<open>The tokens of a JSON text.\<close>

datatype token = LBracket | RBracket | LBrace | RBrace | Comma | Colon | TStr string | TInt int

text \<open>Inside a string: the value of a hexadecimal digit, the character an escape letter
  stands for, and the character of \<^verbatim>\<open>\uXXXX\<close> (\<open>None\<close> from 256 on, where the model
  has no character).\<close>

definition hex_val :: "char \<Rightarrow> nat option" where
  "hex_val c =
     (let n = (of_char c :: nat) in
      if 48 \<le> n \<and> n \<le> 57 then Some (n - 48)
      else if 97 \<le> n \<and> n \<le> 102 then Some (n - 87)
      else if 65 \<le> n \<and> n \<le> 70 then Some (n - 55)
      else None)"

definition unescape :: "char \<Rightarrow> char option" where
  "unescape e =
     (if e = CHR 0x22 then Some CHR 0x22
      else if e = CHR 0x5C then Some CHR 0x5C
      else if e = CHR ''/'' then Some CHR ''/''
      else if e = CHR ''b'' then Some CHR 0x08
      else if e = CHR ''f'' then Some CHR 0x0C
      else if e = CHR ''n'' then Some CHR 0x0A
      else if e = CHR ''r'' then Some CHR 0x0D
      else if e = CHR ''t'' then Some CHR 0x09
      else None)"

definition hex4 :: "char \<Rightarrow> char \<Rightarrow> char \<Rightarrow> char \<Rightarrow> char option" where
  "hex4 h1 h2 h3 h4 =
     (case (hex_val h1, hex_val h2, hex_val h3, hex_val h4) of
        (Some a, Some b, Some c, Some d) \<Rightarrow>
           if a = 0 \<and> b = 0 then Some (char_of (c * 16 + d)) else None
      | _ \<Rightarrow> None)"

text \<open>The string that starts after an opening quote, and the text after its closing quote.
  A control character inside a string is an error.\<close>

fun scan_string :: "string \<Rightarrow> (string \<times> string) option" where
  "scan_string [] = None"
| "scan_string (c # cs) =
     (if c = CHR 0x22 then Some ([], cs)
      else if c = CHR 0x5C then
        (case cs of
           [] \<Rightarrow> None
         | e # es \<Rightarrow>
             if e = CHR ''u'' then
               (case es of
                  h1 # h2 # h3 # h4 # rest \<Rightarrow>
                    (case hex4 h1 h2 h3 h4 of
                       None \<Rightarrow> None
                     | Some ch \<Rightarrow> map_option (\<lambda>(s, r). (ch # s, r)) (scan_string rest))
                | _ \<Rightarrow> None)
             else
               (case unescape e of
                  None \<Rightarrow> None
                | Some ch \<Rightarrow> map_option (\<lambda>(s, r). (ch # s, r)) (scan_string es)))
      else if (of_char c :: nat) < 32 then None
      else map_option (\<lambda>(s, r). (c # s, r)) (scan_string cs))"

text \<open>An integer: an optional minus sign and digits, with no leading zero. A number with a
  fraction or an exponent is not an integer and is not read.\<close>

definition digits_value :: "string \<Rightarrow> int" where
  "digits_value ds = foldl (\<lambda>acc c. acc * 10 + digit_val c) 0 ds"

definition scan_digits :: "string \<Rightarrow> (int \<times> string) option" where
  "scan_digits s =
     (let ds = takeWhile is_digit s; rest = dropWhile is_digit s in
      if ds = [] then None
      else if hd ds = CHR ''0'' \<and> 1 < length ds then None
      else if rest \<noteq> [] \<and> hd rest \<in> {CHR ''.'', CHR ''e'', CHR ''E''} then None
      else Some (digits_value ds, rest))"

definition scan_number :: "string \<Rightarrow> (int \<times> string) option" where
  "scan_number s =
     (case s of
        [] \<Rightarrow> None
      | c # cs \<Rightarrow>
          if c = CHR ''-'' then map_option (\<lambda>(v, r). (- v, r)) (scan_digits cs)
          else scan_digits s)"

definition is_ws :: "char \<Rightarrow> bool" where
  "is_ws c = (c = CHR '' '' \<or> c = CHR 0x09 \<or> c = CHR 0x0A \<or> c = CHR 0x0D)"


text \<open>Both scanners consume at least one character, so the tokenizer terminates.\<close>

lemma map_option_pair_length:
  "map_option (\<lambda>(s, r). (ch # s, r)) x = Some (v, r) \<Longrightarrow> \<exists>v'. x = Some (v', r)"
  by (cases x) auto

lemma scan_string_length: "scan_string s = Some (v, r) \<Longrightarrow> length r < length s"
proof (induction s arbitrary: v r rule: length_induct)
  case (1 s)
  show ?case
  proof (cases s)
    case Nil
    with 1 show ?thesis by simp
  next
    case (Cons c cs)
    note s = Cons
    show ?thesis
    proof (cases "c = CHR 0x22")
      case True
      with 1 s show ?thesis by simp
    next
      case q: False
      show ?thesis
      proof (cases "c = CHR 0x5C")
        case False
        with q s "1.prems" obtain v' where "scan_string cs = Some (v', r)"
          by (auto split: if_splits dest: map_option_pair_length)
        with "1.IH" s have "length r < length cs" by simp
        with s show ?thesis by simp
      next
        case True
        with q s "1.prems" obtain e es where cs: "cs = e # es"
          by (cases cs) auto
        show ?thesis
        proof (cases "e = CHR ''u''")
          case False
          with True q s cs "1.prems" obtain v' where "scan_string es = Some (v', r)"
            by (auto split: option.splits dest: map_option_pair_length)
          with "1.IH" s cs have "length r < length es" by simp
          with s cs show ?thesis by simp
        next
          case u: True
          with True q s cs "1.prems" obtain h1 h2 h3 h4 rest where es: "es = h1 # h2 # h3 # h4 # rest"
            by (auto split: list.splits)
          with u True q s cs "1.prems" obtain v' where "scan_string rest = Some (v', r)"
            by (auto split: option.splits dest: map_option_pair_length)
          with "1.IH" s cs es have "length r < length rest" by simp
          with s cs es show ?thesis by simp
        qed
      qed
    qed
  qed
qed


lemma scan_digits_length: "scan_digits s = Some (v, r) \<Longrightarrow> length r < length s"
proof -
  assume a: "scan_digits s = Some (v, r)"
  then have t: "takeWhile is_digit s \<noteq> []"
    by (auto simp: scan_digits_def Let_def split: if_splits)
  from a have r: "r = dropWhile is_digit s"
    by (auto simp: scan_digits_def Let_def split: if_splits)
  have "length (takeWhile is_digit s) + length (dropWhile is_digit s) =
        length (takeWhile is_digit s @ dropWhile is_digit s)"
    by (simp only: length_append)
  also have "\<dots> = length s"
    by (simp only: takeWhile_dropWhile_id)
  finally have "length (takeWhile is_digit s) + length (dropWhile is_digit s) = length s" .
  moreover from t have "0 < length (takeWhile is_digit s)" by simp
  ultimately have "length (dropWhile is_digit s) < length s" by linarith
  with r show ?thesis by (simp only:)
qed

lemma scan_number_length: "scan_number s = Some (v, r) \<Longrightarrow> length r < length s"
proof (cases s)
  case Nil
  assume "scan_number s = Some (v, r)"
  with Nil show ?thesis by (simp add: scan_number_def)
next
  case (Cons c cs)
  assume a: "scan_number s = Some (v, r)"
  show ?thesis
  proof (cases "c = CHR ''-''")
    case True
    with a Cons obtain v' where "scan_digits cs = Some (v', r)"
      by (cases "scan_digits cs") (auto simp: scan_number_def)
    from scan_digits_length[OF this] Cons show ?thesis by simp
  next
    case False
    with a Cons have "scan_digits s = Some (v, r)" by (simp add: scan_number_def)
    then show ?thesis by (rule scan_digits_length)
  qed
qed

text \<open>The tokenizer; white space between tokens is skipped.\<close>

function lex :: "string \<Rightarrow> token list option" where
  "lex [] = Some []"
| "lex (c # cs) =
     (if is_ws c then lex cs
      else if c = CHR ''['' then map_option (Cons LBracket) (lex cs)
      else if c = CHR '']'' then map_option (Cons RBracket) (lex cs)
      else if c = CHR ''{'' then map_option (Cons LBrace) (lex cs)
      else if c = CHR ''}'' then map_option (Cons RBrace) (lex cs)
      else if c = CHR '','' then map_option (Cons Comma) (lex cs)
      else if c = CHR '':'' then map_option (Cons Colon) (lex cs)
      else if c = CHR 0x22 then
        (case scan_string cs of
           None \<Rightarrow> None
         | Some (s, rest) \<Rightarrow> map_option (Cons (TStr s)) (lex rest))
      else if c = CHR ''-'' \<or> is_digit c then
        (case scan_number (c # cs) of
           None \<Rightarrow> None
         | Some (i, rest) \<Rightarrow> map_option (Cons (TInt i)) (lex rest))
      else None)"
  by pat_completeness auto
termination
proof (relation "measure length")
  show "wf (measure length)" by simp
next
  fix c cs x2 x y
  assume "scan_string cs = Some x2" and "(x, y) = x2"
  then have "scan_string cs = Some (x, y)" by simp
  from scan_string_length[OF this] show "(y, c # cs) \<in> measure length" by simp
next
  fix c cs x2 x y
  assume "scan_number (c # cs) = Some x2" and "(x, y) = x2"
  then have "scan_number (c # cs) = Some (x, y)" by simp
  from scan_number_length[OF this] show "(y, c # cs) \<in> measure length" by simp
qed simp_all


declare lex.simps [simp del]

text \<open>\<^verbatim>\<open>d[k] = v\<close> on a dictionary kept as the list of its items in insertion order.\<close>

fun dict_set :: "(string \<times> pyval) list \<Rightarrow> string \<Rightarrow> pyval \<Rightarrow> (string \<times> pyval) list" where
  "dict_set [] k v = [(k, v)]"
| "dict_set (p # ps) k v = (if fst p = k then (k, v) # ps else p # dict_set ps k v)"

fun tok_val :: "token \<Rightarrow> pyval option" where
  "tok_val (TStr s) = Some (PStr s)"
| "tok_val (TInt i) = Some (PInt i)"
| "tok_val _ = None"

fun tok_key :: "token \<Rightarrow> string option" where
  "tok_key (TStr s) = Some s"
| "tok_key _ = None"

text \<open>The members of an object after its opening brace (\<open>members\<close>, \<open>object_body\<close>), and
  what may follow an object inside the array (\<open>after_object\<close>).\<close>

fun members :: "(string \<times> pyval) list \<Rightarrow> token list \<Rightarrow> (string \<times> pyval) list list option"
  and after_object :: "token list \<Rightarrow> (string \<times> pyval) list list option"
  and object_body :: "token list \<Rightarrow> (string \<times> pyval) list list option" where
  "members acc (t1 # t2 # t3 # t4 # rest) =
     (case (tok_key t1, tok_val t3) of
        (Some k, Some v) \<Rightarrow>
          if t2 \<noteq> Colon then None
          else if t4 = Comma then members (dict_set acc k v) rest
          else if t4 = RBrace then map_option (Cons (dict_set acc k v)) (after_object rest)
          else None
      | _ \<Rightarrow> None)"
| "members acc _ = None"
| "after_object [] = None"
| "after_object [t] = (if t = RBracket then Some [] else None)"
| "after_object (t1 # t2 # rest) =
     (if t1 = Comma \<and> t2 = LBrace then object_body rest else None)"
| "object_body [] = None"
| "object_body (t # rest) =
     (if t = RBrace then map_option (Cons []) (after_object rest) else members [] (t # rest))"

text \<open>The whole text: an array of objects.\<close>

definition json_loads :: "string \<Rightarrow> (string \<times> pyval) list list option" where
  "json_loads text =
     (case lex text of
        None \<Rightarrow> None
      | Some toks \<Rightarrow>
          (case toks of
             [] \<Rightarrow> None
           | t1 # rest \<Rightarrow>
               if t1 \<noteq> LBracket then None
               else if rest = [RBracket] then Some []
               else (case rest of
                       [] \<Rightarrow> None
                     | t2 # rest' \<Rightarrow> if t2 = LBrace then object_body rest' else None)))"



text \<open>The tokens of a dumped entry, and of a dumped list of entries.\<close>

definition body_tokens :: "signal \<Rightarrow> token list" where
  "body_tokens d =
     [TStr ''description'', Colon, TStr (description d), Comma,
      TStr ''freqStart'', Colon, TInt (freqStart d), Comma,
      TStr ''freqStop'', Colon, TInt (freqStop d), Comma,
      TStr ''url'', Colon, TStr (url d), RBrace]"

fun entries_tokens :: "signal list \<Rightarrow> token list" where
  "entries_tokens [] = []"
| "entries_tokens [d] = LBrace # body_tokens d"
| "entries_tokens (d # e # es) = LBrace # body_tokens d @ Comma # entries_tokens (e # es)"

text \<open>The dictionary an entry is read back as.\<close>

definition loaded :: "signal \<Rightarrow> (string \<times> pyval) list" where
  "loaded d =
     [(''description'', PStr (description d)), (''freqStart'', PInt (freqStart d)),
      (''freqStop'', PInt (freqStop d)), (''url'', PStr (url d))]"

text \<open>A token list written out with the separators \<^verbatim>\<open>json.dump\<close> uses by default: one
  blank after each comma and each colon, and nothing else between tokens.\<close>

fun render_token :: "token \<Rightarrow> string" where
  "render_token LBracket = ''[''"
| "render_token RBracket = '']''"
| "render_token LBrace = ''{''"
| "render_token RBrace = ''}''"
| "render_token Comma = '', ''"
| "render_token Colon = '': ''"
| "render_token (TStr s) = json_str s"
| "render_token (TInt i) = str_int i"

definition render :: "token list \<Rightarrow> string" where
  "render toks = concat (map render_token toks)"

section \<open>The loop, line by line\<close>

text \<open>The loop body does the same to every state: it raises, or it appends what the line
  contributes.\<close>

lemma line_raises_iff:
  "line_raises line \<longleftrightarrow>
     8 \<le> length (str_split line CHR ''*'') \<and>
     (py_int (str_split line CHR ''*'' ! 1) = None \<or> py_int (str_split line CHR ''*'' ! 2) = None)"
  by (auto simp: loop_body_def line_raises_def Let_def split: if_splits option.splits)

lemma loop_body_eq:
  "loop_body line st =
     (if line_raises line then Inl ValueError
      else Inr (st\<lparr>out := out st @ line_out line, stdout := stdout st @ line_printed line\<rparr>))"
  by (auto simp: loop_body_def line_out_def line_printed_def line_raises_def Let_def
           split: if_splits option.splits)

lemma for_loop_eq:
  "for_loop lines st =
     (st\<lparr>out := out st @ concat (map line_out (takeWhile (\<lambda>l. \<not> line_raises l) lines)),
         stdout := stdout st @ concat (map line_printed (takeWhile (\<lambda>l. \<not> line_raises l) lines))\<rparr>,
      if \<exists>l \<in> set lines. line_raises l then Some ValueError else None)"
  by (induction lines arbitrary: st) (simp_all add: loop_body_eq)

lemma run_loop_eq:
  "run_loop db_csv =
     (\<lparr>out = concat (map line_out (takeWhile (\<lambda>l. \<not> line_raises l) (file_lines db_csv))),
       stdout = concat (map line_printed (takeWhile (\<lambda>l. \<not> line_raises l) (file_lines db_csv)))\<rparr>,
      if \<exists>l \<in> set (file_lines db_csv). line_raises l then Some ValueError else None)"
  by (simp add: run_loop_def for_loop_eq)

lemma takeWhile_all: "\<forall>x \<in> set xs. P x \<Longrightarrow> takeWhile P xs = xs"
  by (induction xs) auto

lemma mset_list_sort: "mset (list_sort key r xs) = mset xs"
  by (simp add: list_sort_def)

lemma line_out_eq:
  "line_out line =
     (let data = str_split line CHR ''*'' in
      if 8 \<le> length data then
        (case (py_int (data ! 1), py_int (data ! 2)) of
           (Some a, Some b) \<Rightarrow>
              if a = 0 \<and> b = 0 then []
              else [\<lparr>freqStart = a, freqStop = b, description = data ! 0, url = data ! 7\<rparr>]
         | _ \<Rightarrow> [])
      else [])"
  by (auto simp: loop_body_def line_out_def Let_def split: if_splits option.splits)

lemma line_printed_eq:
  "line_printed line =
     (let data = str_split line CHR ''*'' in
      if 8 \<le> length data then
        (case (py_int (data ! 1), py_int (data ! 2)) of
           (Some a, Some b) \<Rightarrow>
              if a = 0 \<and> b = 0
              then [''Skipping: '' @ str_dict \<lparr>freqStart = 0, freqStop = 0, description = data ! 0, url = data ! 7\<rparr>]
              else []
         | _ \<Rightarrow> [])
      else [])"
  by (auto simp: loop_body_def line_printed_def Let_def split: if_splits option.splits)

lemma raised_main: "raised (main db_csv) = snd (run_loop db_csv)"
  by (cases "run_loop db_csv") (auto simp: main_def split: option.splits)

lemma printed_main: "printed (main db_csv) = stdout (fst (run_loop db_csv))"
  by (cases "run_loop db_csv") (auto simp: main_def split: option.splits)

lemma frequencies_json_main:
  "frequencies_json (main db_csv) =
     (if snd (run_loop db_csv) = None then Some (json_dump (sorted_out db_csv) True) else None)"
  by (cases "run_loop db_csv") (auto simp: main_def split: option.splits)

section \<open>The printed text holds no line break\<close>

lemma hex_digit_in: "n < 16 \<Longrightarrow> hex_digit n \<in> set ''0123456789abcdef''"
  unfolding hex_digit_def by (rule nth_mem) simp

lemma hex_digit_newline: "n < 16 \<Longrightarrow> hex_digit n \<noteq> CHR 0x0A"
  using hex_digit_in[of n] by auto

lemma of_char_div_16: "(of_char c :: nat) div 16 < 16"
proof -
  have "(of_char c :: nat) < 256" by simp
  then show ?thesis by arith
qed

lemma newline_str_digits: "CHR 0x0A \<notin> set (str_digits n)"
proof (induction n rule: str_digits.induct)
  case (1 n)
  show ?case
  proof (cases "n < 10")
    case True
    then have "nat n < 16" by simp
    from hex_digit_newline[OF this] True show ?thesis
      by (subst str_digits.simps) simp
  next
    case False
    have "nat (n mod 10) < 16" by (simp add: nat_less_iff) 
    from hex_digit_newline[OF this] False 1 show ?thesis
      by (subst str_digits.simps) simp
  qed
qed

lemma newline_str_int: "CHR 0x0A \<notin> set (str_int i)"
  by (simp add: str_int_def newline_str_digits)

lemma set_join: "set (join sep xs) \<subseteq> set sep \<union> (\<Union>x \<in> set xs. set x)"
  by (induction sep xs rule: join.induct) auto


lemma newline_repr_char: "q \<noteq> CHR 0x0A \<Longrightarrow> CHR 0x0A \<notin> set (repr_char q c)"
proof -
  assume q: "q \<noteq> CHR 0x0A"
  have h1: "hex_digit (of_char c div 16) \<noteq> CHR 0x0A"
    by (rule hex_digit_newline) (rule of_char_div_16)
  have h2: "hex_digit (of_char c mod 16) \<noteq> CHR 0x0A"
    by (rule hex_digit_newline) simp
  have c: "of_char c \<noteq> (10::nat) \<Longrightarrow> c \<noteq> CHR 0x0A" by auto
  from q h1 h2 c show ?thesis
    by (auto simp: repr_char_def Let_def)
qed

lemma newline_repr_str: "CHR 0x0A \<notin> set (repr_str s)"
  by (simp add: repr_str_def Let_def repr_quote_def newline_repr_char)

lemma newline_str_dict: "CHR 0x0A \<notin> set (str_dict d)"
proof -
  have "CHR 0x0A \<notin> set '', '' \<union> (\<Union>x \<in> set (map (\<lambda>(k, v). repr_str k @ '': '' @ repr_val v) (items d)). set x)"
    by (simp add: items_def newline_repr_str newline_str_int)
  with set_join[of "'', ''" "map (\<lambda>(k, v). repr_str k @ '': '' @ repr_val v) (items d)"]
  have "CHR 0x0A \<notin> set (join '', '' (map (\<lambda>(k, v). repr_str k @ '': '' @ repr_val v) (items d)))"
    by blast
  then show ?thesis by (simp add: str_dict_def)
qed

section \<open>Sorting with \<^verbatim>\<open>reverse=True\<close>\<close>

lemma sorted_list_sort_reverse:
  "sorted_wrt (\<lambda>a b. key a \<ge> key b) (list_sort key True xs)"
proof -
  have "sorted (map key (sort_key key (rev xs)))" by simp
  then have "sorted_wrt (\<lambda>a b. key a \<le> key b) (sort_key key (rev xs))"
    by (simp add: sorted_map)
  then have "sorted_wrt (\<lambda>a b. key b \<le> key a) (rev (sort_key key (rev xs)))"
    by (simp add: sorted_wrt_rev)
  then show ?thesis by (simp add: list_sort_def)
qed

lemma stable_list_sort_reverse:
  "filter (\<lambda>x. key x = k) (list_sort key True xs) = filter (\<lambda>x. key x = k) xs"
proof -
  have "filter (\<lambda>x. key x = k) (rev (sort_key key (rev xs))) =
        rev (filter (\<lambda>x. key x = k) (sort_key key (rev xs)))"
    by (simp add: rev_filter)
  also have "\<dots> = rev (filter (\<lambda>x. key x = k) (rev xs))"
    by (simp only: sort_key_stable)
  also have "\<dots> = filter (\<lambda>x. key x = k) xs"
    by (simp add: rev_filter)
  finally show ?thesis by (simp add: list_sort_def)
qed

lemma sorted_wrt_adjacent:
  "sorted_wrt (\<lambda>a b. key b \<le> key a) xs \<Longrightarrow> Suc i < length xs \<Longrightarrow> (key (xs ! Suc i) :: int) \<le> key (xs ! i)"
  by (simp add: sorted_wrt_iff_nth_less)


section \<open>The dumped text is printable ASCII\<close>

lemma printable_hex_digit: "n < 16 \<Longrightarrow> printable (hex_digit n)"
proof -
  assume "n < 16"
  then have "hex_digit n \<in> set ''0123456789abcdef''" by (rule hex_digit_in)
  moreover have "\<forall>c \<in> set ''0123456789abcdef''. printable c" by (simp add: printable_def)
  ultimately show ?thesis by blast
qed

lemma printable_str_digits: "\<forall>c \<in> set (str_digits n). printable c"
proof (induction n rule: str_digits.induct)
  case (1 n)
  show ?case
  proof (cases "n < 10")
    case True
    then have "nat n < 16" by simp
    from printable_hex_digit[OF this] True show ?thesis
      by (subst str_digits.simps) simp
  next
    case False
    have "nat (n mod 10) < 16" by (simp add: nat_less_iff)
    from printable_hex_digit[OF this] False 1 show ?thesis
      by (subst str_digits.simps) simp
  qed
qed

lemma printable_str_int: "\<forall>c \<in> set (str_int i). printable c"
  using printable_str_digits by (simp add: str_int_def printable_def)

lemma printable_json_char: "\<forall>x \<in> set (json_char c). printable x"
proof -
  have h1: "printable (hex_digit (of_char c div 16))"
    by (rule printable_hex_digit) (rule of_char_div_16)
  have h2: "printable (hex_digit (of_char c mod 16))"
    by (rule printable_hex_digit) simp
  have c: "\<not> (of_char c :: nat) < 32 \<Longrightarrow> \<not> 126 < (of_char c :: nat) \<Longrightarrow> printable c"
    by (simp add: printable_def)
  have k: "printable CHR 0x5C" "printable CHR 0x22" "printable CHR ''n''" "printable CHR ''r''"
    "printable CHR ''t''" "printable CHR ''f''" "printable CHR ''b''" "printable CHR ''u''"
    "printable CHR ''0''"
    by (simp_all add: printable_def)
  from h1 h2 c k show ?thesis
    by (simp add: json_char_def Let_def)
qed

lemma printable_json_str: "\<forall>c \<in> set (json_str s). printable c"
  using printable_json_char by (auto simp: json_str_def printable_def)

lemma printable_json_val: "\<forall>c \<in> set (json_val v). printable c"
  by (cases v) (simp_all add: printable_json_str printable_str_int)

lemma printable_join:
  "\<forall>c \<in> set sep. printable c \<Longrightarrow> \<forall>x \<in> set xs. \<forall>c \<in> set x. printable c \<Longrightarrow>
     \<forall>c \<in> set (join sep xs). printable c"
  using set_join[of sep xs] by blast

lemma printable_json_dict: "\<forall>c \<in> set (json_dict b its). printable c"
proof -
  have "\<forall>x \<in> set (map (\<lambda>(k, v). json_str k @ '': '' @ json_val v) (if b then sort_key fst its else its)).
          \<forall>c \<in> set x. printable c"
    using printable_json_str printable_json_val by (auto simp: printable_def)
  moreover have "\<forall>c \<in> set '', ''. printable c" by (simp add: printable_def)
  ultimately have "\<forall>c \<in> set (join '', '' (map (\<lambda>(k, v). json_str k @ '': '' @ json_val v)
                                              (if b then sort_key fst its else its))). printable c"
    by (rule printable_join[rotated])
  then show ?thesis by (simp add: json_dict_def printable_def)
qed

lemma printable_json_dump: "\<forall>c \<in> set (json_dump xs b). printable c"
proof -
  have "\<forall>x \<in> set (map (\<lambda>d. json_dict b (items d)) xs). \<forall>c \<in> set x. printable c"
    using printable_json_dict by simp
  moreover have "\<forall>c \<in> set '', ''. printable c" by (simp add: printable_def)
  ultimately have "\<forall>c \<in> set (join '', '' (map (\<lambda>d. json_dict b (items d)) xs)). printable c"
    by (rule printable_join[rotated])
  then show ?thesis by (simp add: json_dump_def printable_def)
qed

section \<open>The limit on the digits of an integer literal\<close>

lemma is_space_not_digit: "is_space c \<Longrightarrow> \<not> is_digit c"
  by (auto simp: is_space_def is_digit_def Let_def)

lemma filter_dropWhile_disjoint:
  "(\<And>x. Q x \<Longrightarrow> \<not> P x) \<Longrightarrow> filter P (dropWhile Q xs) = filter P xs"
  by (induction xs) auto

lemma filter_is_digit_strip: "filter is_digit (strip s) = filter is_digit s"
proof -
  have "filter is_digit (strip s) = rev (filter is_digit (dropWhile is_space (rev (dropWhile is_space s))))"
    by (simp add: strip_def rev_filter)
  also have "\<dots> = rev (filter is_digit (rev (dropWhile is_space s)))"
    by (simp only: filter_dropWhile_disjoint[of is_space is_digit, OF is_space_not_digit])
  also have "\<dots> = filter is_digit (dropWhile is_space s)"
    by (simp add: rev_filter)
  also have "\<dots> = filter is_digit s"
    by (simp only: filter_dropWhile_disjoint[of is_space is_digit, OF is_space_not_digit])
  finally show ?thesis .
qed

lemma unsigned_int_digit_limit:
  "max_str_digits < int (length (filter is_digit s)) \<Longrightarrow> unsigned_int s = None"
  by (cases s) (auto simp: unsigned_int_def)

lemma py_int_digit_limit:
  assumes "max_str_digits < int (length (filter is_digit s))"
  shows "py_int s = None"
proof (cases "strip s")
  case Nil
  then show ?thesis by (simp add: py_int_def)
next
  case (Cons c cs)
  have f: "filter is_digit (c # cs) = filter is_digit s"
    using filter_is_digit_strip[of s] Cons by simp
  show ?thesis
  proof (cases "c = CHR ''-'' \<or> c = CHR ''+''")
    case True
    then have "\<not> is_digit c" by (auto simp: is_digit_def)
    with f have "filter is_digit cs = filter is_digit s" by simp
    with assms have "unsigned_int cs = None" by (simp add: unsigned_int_digit_limit)
    with True Cons show ?thesis by (auto simp: py_int_def)
  next
    case False
    from f assms have "unsigned_int (c # cs) = None" by (simp add: unsigned_int_digit_limit)
    with False Cons show ?thesis by (simp add: py_int_def)
  qed
qed

lemma py_int_long_zeros: "py_int (replicate 4301 CHR ''0'') = None"
  by (rule py_int_digit_limit) (simp add: max_str_digits_def is_digit_def)

section \<open>Lines of fewer than eight fields\<close>

text \<open>
  Claim C6. A line that splits into fewer than eight fields is passed over: the loop body
  returns the state it was given (nothing appended to \<^verbatim>\<open>out\<close>, nothing printed) and
  the loop goes on with the next line. It never raises, whatever the fields hold, so no
  field is converted to an integer.
\<close>

theorem short_line_skipped:
  "length (str_split line CHR ''*'') < 8 \<Longrightarrow>
     loop_body line st = Inr st \<and>
     for_loop (line # rest) st = for_loop rest st \<and>
     line_out line = [] \<and> line_printed line = [] \<and> \<not> line_raises line"
  by (simp add: loop_body_def line_out_def line_printed_def line_raises_def)

theorem short_line_skipped_witness:
  "length (str_split ''a*b*c*d*e\<newline>'' CHR ''*'') < 8 \<and>
   py_int (str_split ''a*b*c*d*e\<newline>'' CHR ''*'' ! 1) = None \<and>
   loop_body ''a*b*c*d*e\<newline>'' \<lparr>out = [], stdout = []\<rparr> = Inr \<lparr>out = [], stdout = []\<rparr> \<and>
   main ''a*b*c*d*e\<newline>'' = \<lparr>frequencies_json = Some ''[]'', printed = [], raised = None\<rparr>"
proof -
  have h: "length (str_split ''a*b*c*d*e\<newline>'' CHR ''*'') < 8" by code_simp
  have p: "py_int (str_split ''a*b*c*d*e\<newline>'' CHR ''*'' ! 1) = None" by code_simp
  have m: "main ''a*b*c*d*e\<newline>'' = \<lparr>frequencies_json = Some ''[]'', printed = [], raised = None\<rparr>"
    by code_simp
  from h p m short_line_skipped[OF h, of "\<lparr>out = [], stdout = []\<rparr>"] show ?thesis by simp
qed

section \<open>Which lines are kept\<close>

text \<open>
  Claim C1. A line contributes exactly one entry to \<^verbatim>\<open>out\<close> when it splits into at least
  eight fields and fields 1 and 2 convert to integers that are not both zero: the entry
  built from fields 0, 1, 2 and 7. Every other line contributes none. The loop body
  appends the line's contribution to \<^verbatim>\<open>out\<close>, and when the run raises nothing the list
  \<^verbatim>\<open>out\<close> is the contributions of the lines in file order, and the sorted list has the
  same entries.
\<close>

theorem line_retained_iff:
  "(8 \<le> length (str_split line CHR ''*'') \<and>
    py_int (str_split line CHR ''*'' ! 1) = Some a \<and>
    py_int (str_split line CHR ''*'' ! 2) = Some b \<and> \<not> (a = 0 \<and> b = 0) \<longrightarrow>
      line_out line = [\<lparr>freqStart = a, freqStop = b, description = str_split line CHR ''*'' ! 0,
                        url = str_split line CHR ''*'' ! 7\<rparr>]) \<and>
   (\<not> (8 \<le> length (str_split line CHR ''*'') \<and>
       (\<exists>a b. py_int (str_split line CHR ''*'' ! 1) = Some a \<and>
              py_int (str_split line CHR ''*'' ! 2) = Some b \<and> \<not> (a = 0 \<and> b = 0))) \<longrightarrow>
      line_out line = []) \<and>
   (loop_body line st = Inr st' \<longrightarrow> out st' = out st @ line_out line) \<and>
   (raised (main db_csv) = None \<longrightarrow>
      out (fst (run_loop db_csv)) = concat (map line_out (file_lines db_csv)) \<and>
      mset (sorted_out db_csv) = mset (concat (map line_out (file_lines db_csv))))"
proof (intro conjI impI)
  assume "8 \<le> length (str_split line CHR ''*'') \<and>
    py_int (str_split line CHR ''*'' ! 1) = Some a \<and>
    py_int (str_split line CHR ''*'' ! 2) = Some b \<and> \<not> (a = 0 \<and> b = 0)"
  then show "line_out line = [\<lparr>freqStart = a, freqStop = b, description = str_split line CHR ''*'' ! 0,
                        url = str_split line CHR ''*'' ! 7\<rparr>]"
    by (auto simp: line_out_eq Let_def)
next
  assume "\<not> (8 \<le> length (str_split line CHR ''*'') \<and>
       (\<exists>a b. py_int (str_split line CHR ''*'' ! 1) = Some a \<and>
              py_int (str_split line CHR ''*'' ! 2) = Some b \<and> \<not> (a = 0 \<and> b = 0)))"
  then show "line_out line = []"
    by (auto simp: line_out_eq Let_def split: option.splits)
next
  assume "loop_body line st = Inr st'"
  then show "out st' = out st @ line_out line"
    by (auto simp: loop_body_eq split: if_splits)
next
  assume "raised (main db_csv) = None"
  then have n: "\<forall>l \<in> set (file_lines db_csv). \<not> line_raises l"
    by (simp add: raised_main run_loop_eq split: if_splits)
  then show "out (fst (run_loop db_csv)) = concat (map line_out (file_lines db_csv))"
    by (simp add: run_loop_eq takeWhile_all)
  then show "mset (sorted_out db_csv) = mset (concat (map line_out (file_lines db_csv)))"
    by (simp add: sorted_out_def mset_list_sort)
qed


theorem line_retained_iff_witness:
  "(8 \<le> length (str_split ''FM Radio*88000000*108000000*Broadcast*x*x*x*http://example.com/fm\<newline>'' CHR ''*'') \<and>
    py_int (str_split ''FM Radio*88000000*108000000*Broadcast*x*x*x*http://example.com/fm\<newline>'' CHR ''*'' ! 1) = Some 88000000 \<and>
    py_int (str_split ''FM Radio*88000000*108000000*Broadcast*x*x*x*http://example.com/fm\<newline>'' CHR ''*'' ! 2) = Some 108000000 \<and>
    \<not> ((88000000::int) = 0 \<and> (108000000::int) = 0)) \<and>
   line_out ''FM Radio*88000000*108000000*Broadcast*x*x*x*http://example.com/fm\<newline>'' =
     [\<lparr>freqStart = 88000000, freqStop = 108000000,
       description = str_split ''FM Radio*88000000*108000000*Broadcast*x*x*x*http://example.com/fm\<newline>'' CHR ''*'' ! 0,
       url = str_split ''FM Radio*88000000*108000000*Broadcast*x*x*x*http://example.com/fm\<newline>'' CHR ''*'' ! 7\<rparr>] \<and>
   raised (main ''a*1*2*x*x*x*x*u*\<newline>z*0*0*x*x*x*x*u*\<newline>b*5*2*x*x*x*x*u*\<newline>'') = None \<and>
   out (fst (run_loop ''a*1*2*x*x*x*x*u*\<newline>z*0*0*x*x*x*x*u*\<newline>b*5*2*x*x*x*x*u*\<newline>'')) =
     concat (map line_out (file_lines ''a*1*2*x*x*x*x*u*\<newline>z*0*0*x*x*x*x*u*\<newline>b*5*2*x*x*x*x*u*\<newline>''))"
proof -
  have h: "8 \<le> length (str_split ''FM Radio*88000000*108000000*Broadcast*x*x*x*http://example.com/fm\<newline>'' CHR ''*'') \<and>
    py_int (str_split ''FM Radio*88000000*108000000*Broadcast*x*x*x*http://example.com/fm\<newline>'' CHR ''*'' ! 1) = Some 88000000 \<and>
    py_int (str_split ''FM Radio*88000000*108000000*Broadcast*x*x*x*http://example.com/fm\<newline>'' CHR ''*'' ! 2) = Some 108000000 \<and>
    \<not> ((88000000::int) = 0 \<and> (108000000::int) = 0)"
    by code_simp
  have r: "raised (main ''a*1*2*x*x*x*x*u*\<newline>z*0*0*x*x*x*x*u*\<newline>b*5*2*x*x*x*x*u*\<newline>'') = None"
    by code_simp
  show ?thesis
    using h r
      line_retained_iff[where line = "''FM Radio*88000000*108000000*Broadcast*x*x*x*http://example.com/fm\<newline>''"
        and a = 88000000 and b = 108000000
        and db_csv = "''a*1*2*x*x*x*x*u*\<newline>z*0*0*x*x*x*x*u*\<newline>b*5*2*x*x*x*x*u*\<newline>''"]
    by blast
qed

section \<open>Fields that are not integers\<close>

text \<open>
  Claim C5. The loop body raises \<^verbatim>\<open>ValueError\<close> exactly on a line of at least eight
  fields whose field 1 or field 2 is not accepted by \<^verbatim>\<open>int\<close>. Nothing catches the
  exception: the run ends with it exactly when the file holds such a line, and then
  \<^verbatim>\<open>frequencies.json\<close> is never opened. Among the fields \<^verbatim>\<open>int\<close> does not accept are
  those with a separator \<^verbatim>\<open>0x1c\<close> to \<^verbatim>\<open>0x1f\<close> next to the digits and those of more than
  4300 digits.
\<close>

theorem malformed_frequency_raises:
  "(loop_body line st = Inl ValueError \<longleftrightarrow>
      8 \<le> length (str_split line CHR ''*'') \<and>
      (py_int (str_split line CHR ''*'' ! 1) = None \<or> py_int (str_split line CHR ''*'' ! 2) = None)) \<and>
   (raised (main db_csv) = Some ValueError \<longleftrightarrow>
      (\<exists>l \<in> set (file_lines db_csv).
         8 \<le> length (str_split l CHR ''*'') \<and>
         (py_int (str_split l CHR ''*'' ! 1) = None \<or> py_int (str_split l CHR ''*'' ! 2) = None))) \<and>
   (raised (main db_csv) = Some ValueError \<longrightarrow> frequencies_json (main db_csv) = None)"
proof (intro conjI)
  show "loop_body line st = Inl ValueError \<longleftrightarrow>
      8 \<le> length (str_split line CHR ''*'') \<and>
      (py_int (str_split line CHR ''*'' ! 1) = None \<or> py_int (str_split line CHR ''*'' ! 2) = None)"
    by (simp add: loop_body_eq line_raises_iff)
  show "raised (main db_csv) = Some ValueError \<longleftrightarrow>
      (\<exists>l \<in> set (file_lines db_csv).
         8 \<le> length (str_split l CHR ''*'') \<and>
         (py_int (str_split l CHR ''*'' ! 1) = None \<or> py_int (str_split l CHR ''*'' ! 2) = None))"
    by (simp add: raised_main run_loop_eq line_raises_iff)
  show "raised (main db_csv) = Some ValueError \<longrightarrow> frequencies_json (main db_csv) = None"
    by (simp add: raised_main frequencies_json_main)
qed

theorem malformed_frequency_raises_witness:
  "raised (main ''a*1*2*x*x*x*x*u*\<newline>b*5*2.5*x*x*x*x*u*\<newline>c*0*0*x*x*x*x*u*\<newline>'') = Some ValueError \<and>
   frequencies_json (main ''a*1*2*x*x*x*x*u*\<newline>b*5*2.5*x*x*x*x*u*\<newline>c*0*0*x*x*x*x*u*\<newline>'') = None \<and>
   printed (main ''a*1*2*x*x*x*x*u*\<newline>b*5*2.5*x*x*x*x*u*\<newline>c*0*0*x*x*x*x*u*\<newline>'') = [] \<and>
   main (''a*'' @ [CHR 0x1C] @ ''5*6*x*x*x*x*u\<newline>'') = \<lparr>frequencies_json = None, printed = [], raised = Some ValueError\<rparr> \<and>
   py_int (replicate 4301 CHR ''0'') = None"
proof -
  have r: "raised (main ''a*1*2*x*x*x*x*u*\<newline>b*5*2.5*x*x*x*x*u*\<newline>c*0*0*x*x*x*x*u*\<newline>'') = Some ValueError"
    by code_simp
  have p: "printed (main ''a*1*2*x*x*x*x*u*\<newline>b*5*2.5*x*x*x*x*u*\<newline>c*0*0*x*x*x*x*u*\<newline>'') = []"
    by code_simp
  have s: "main (''a*'' @ [CHR 0x1C] @ ''5*6*x*x*x*x*u\<newline>'') = \<lparr>frequencies_json = None, printed = [], raised = Some ValueError\<rparr>"
    by code_simp
  show ?thesis
    using r p s py_int_long_zeros malformed_frequency_raises[where db_csv = "''a*1*2*x*x*x*x*u*\<newline>b*5*2.5*x*x*x*x*u*\<newline>c*0*0*x*x*x*x*u*\<newline>''"]
    by blast
qed

section \<open>Entries with both frequencies zero\<close>

text \<open>
  Claim C4. On a line of at least eight fields whose fields 1 and 2 both convert to 0, the
  loop body appends nothing to \<^verbatim>\<open>out\<close> and prints once: the text \<^verbatim>\<open>Skipping: \<close> followed
  by \<^verbatim>\<open>str(current)\<close>. That text holds no line break, so the call prints exactly one line.
  Every other line prints nothing, and what a run prints is what its lines print, in file
  order, up to the first line that raises.
\<close>

theorem zero_zero_skipped:
  "(8 \<le> length (str_split line CHR ''*'') \<and>
    py_int (str_split line CHR ''*'' ! 1) = Some 0 \<and>
    py_int (str_split line CHR ''*'' ! 2) = Some 0 \<longrightarrow>
      loop_body line st =
        Inr (st\<lparr>stdout := stdout st @
               [''Skipping: '' @ str_dict \<lparr>freqStart = 0, freqStop = 0,
                                            description = str_split line CHR ''*'' ! 0,
                                            url = str_split line CHR ''*'' ! 7\<rparr>]\<rparr>) \<and>
      line_out line = [] \<and>
      line_printed line =
        [''Skipping: '' @ str_dict \<lparr>freqStart = 0, freqStop = 0,
                                     description = str_split line CHR ''*'' ! 0,
                                     url = str_split line CHR ''*'' ! 7\<rparr>]) \<and>
   (\<not> (8 \<le> length (str_split line CHR ''*'') \<and>
       py_int (str_split line CHR ''*'' ! 1) = Some 0 \<and>
       py_int (str_split line CHR ''*'' ! 2) = Some 0) \<longrightarrow> line_printed line = []) \<and>
   (loop_body line st = Inr st' \<longrightarrow> stdout st' = stdout st @ line_printed line) \<and>
   CHR 0x0A \<notin> set (''Skipping: '' @ str_dict d) \<and>
   printed (main db_csv) =
     concat (map line_printed (takeWhile (\<lambda>l. \<not> line_raises l) (file_lines db_csv)))"
proof (intro conjI impI)
  assume z: "8 \<le> length (str_split line CHR ''*'') \<and>
    py_int (str_split line CHR ''*'' ! 1) = Some 0 \<and>
    py_int (str_split line CHR ''*'' ! 2) = Some 0"
  then have r: "\<not> line_raises line" by (simp add: line_raises_iff)
  from z show o: "line_out line = []" by (simp add: line_out_eq Let_def)
  from z show p: "line_printed line =
        [''Skipping: '' @ str_dict \<lparr>freqStart = 0, freqStop = 0,
                                     description = str_split line CHR ''*'' ! 0,
                                     url = str_split line CHR ''*'' ! 7\<rparr>]"
    by (simp add: line_printed_eq Let_def)
  from r o p show "loop_body line st =
        Inr (st\<lparr>stdout := stdout st @
               [''Skipping: '' @ str_dict \<lparr>freqStart = 0, freqStop = 0,
                                            description = str_split line CHR ''*'' ! 0,
                                            url = str_split line CHR ''*'' ! 7\<rparr>]\<rparr>)"
    by (simp add: loop_body_eq)
next
  assume "\<not> (8 \<le> length (str_split line CHR ''*'') \<and>
       py_int (str_split line CHR ''*'' ! 1) = Some 0 \<and>
       py_int (str_split line CHR ''*'' ! 2) = Some 0)"
  then show "line_printed line = []"
    by (auto simp: line_printed_eq Let_def split: option.splits)
next
  assume "loop_body line st = Inr st'"
  then show "stdout st' = stdout st @ line_printed line"
    by (auto simp: loop_body_eq split: if_splits)
next
  show "CHR 0x0A \<notin> set (''Skipping: '' @ str_dict d)"
    by (simp add: newline_str_dict)
next
  show "printed (main db_csv) =
     concat (map line_printed (takeWhile (\<lambda>l. \<not> line_raises l) (file_lines db_csv)))"
    by (simp add: printed_main run_loop_eq)
qed

theorem zero_zero_skipped_witness:
  "(8 \<le> length (str_split ''Invalid*0*0*x*x*x*x*http://example.com/invalid\<newline>'' CHR ''*'') \<and>
    py_int (str_split ''Invalid*0*0*x*x*x*x*http://example.com/invalid\<newline>'' CHR ''*'' ! 1) = Some 0 \<and>
    py_int (str_split ''Invalid*0*0*x*x*x*x*http://example.com/invalid\<newline>'' CHR ''*'' ! 2) = Some 0) \<and>
   line_out ''Invalid*0*0*x*x*x*x*http://example.com/invalid\<newline>'' = [] \<and>
   line_printed ''Invalid*0*0*x*x*x*x*http://example.com/invalid\<newline>'' =
     [''Skipping: '' @ str_dict \<lparr>freqStart = 0, freqStop = 0,
                                  description = str_split ''Invalid*0*0*x*x*x*x*http://example.com/invalid\<newline>'' CHR ''*'' ! 0,
                                  url = str_split ''Invalid*0*0*x*x*x*x*http://example.com/invalid\<newline>'' CHR ''*'' ! 7\<rparr>] \<and>
   main ''Invalid*0*0*x*x*x*x*http://example.com/invalid\<newline>'' =
     \<lparr>frequencies_json = Some ''[]'',
      printed = [''Skipping: {'' @ [CHR 0x27] @ ''freqStart'' @ [CHR 0x27] @ '': 0, '' @ [CHR 0x27] @ ''freqStop'' @ [CHR 0x27] @ '': 0, '' @ [CHR 0x27] @ ''description'' @ [CHR 0x27] @
        '': '' @ [CHR 0x27] @ ''Invalid'' @ [CHR 0x27] @ '', '' @ [CHR 0x27] @ ''url'' @ [CHR 0x27] @ '': '' @ [CHR 0x27] @
        ''http://example.com/invalid'' @ [CHR 0x5C] @ ''n'' @ [CHR 0x27] @ ''}''],
      raised = None\<rparr> \<and>
   main (''z*'' @ [CHR 0x1E] @ ''0*0'' @ [CHR 0x1D] @ ''*x*x*x*x*u\<newline>'') = \<lparr>frequencies_json = None, printed = [], raised = Some ValueError\<rparr>"
proof -
  have h: "8 \<le> length (str_split ''Invalid*0*0*x*x*x*x*http://example.com/invalid\<newline>'' CHR ''*'') \<and>
    py_int (str_split ''Invalid*0*0*x*x*x*x*http://example.com/invalid\<newline>'' CHR ''*'' ! 1) = Some 0 \<and>
    py_int (str_split ''Invalid*0*0*x*x*x*x*http://example.com/invalid\<newline>'' CHR ''*'' ! 2) = Some 0"
    by code_simp
  have m: "main ''Invalid*0*0*x*x*x*x*http://example.com/invalid\<newline>'' =
     \<lparr>frequencies_json = Some ''[]'',
      printed = [''Skipping: {'' @ [CHR 0x27] @ ''freqStart'' @ [CHR 0x27] @ '': 0, '' @ [CHR 0x27] @ ''freqStop'' @ [CHR 0x27] @ '': 0, '' @ [CHR 0x27] @ ''description'' @ [CHR 0x27] @
        '': '' @ [CHR 0x27] @ ''Invalid'' @ [CHR 0x27] @ '', '' @ [CHR 0x27] @ ''url'' @ [CHR 0x27] @ '': '' @ [CHR 0x27] @
        ''http://example.com/invalid'' @ [CHR 0x5C] @ ''n'' @ [CHR 0x27] @ ''}''],
      raised = None\<rparr>"
    by code_simp
  have z: "main (''z*'' @ [CHR 0x1E] @ ''0*0'' @ [CHR 0x1D] @ ''*x*x*x*x*u\<newline>'') = \<lparr>frequencies_json = None, printed = [], raised = Some ValueError\<rparr>"
    by code_simp
  show ?thesis
    using h m z zero_zero_skipped[where line = "''Invalid*0*0*x*x*x*x*http://example.com/invalid\<newline>''"]
    by blast
qed

section \<open>The order of the output\<close>

text \<open>
  Claim C2. The list that is dumped is the list \<^verbatim>\<open>out\<close> sorted by decreasing
  \<^verbatim>\<open>freqStop - freqStart\<close>: every entry has at least the bandwidth of every later one, in
  particular of the next one; the entries of any one bandwidth stand in the order they have
  in \<^verbatim>\<open>out\<close>, which is the order of their lines in the file; and the sorted list has the
  entries of \<^verbatim>\<open>out\<close>, each as often.
\<close>

theorem output_sorted_stable:
  "sorted_wrt (\<lambda>a b. bandwidth a \<ge> bandwidth b) (sorted_out db_csv) \<and>
   (\<forall>i. Suc i < length (sorted_out db_csv) \<longrightarrow>
        bandwidth (sorted_out db_csv ! i) \<ge> bandwidth (sorted_out db_csv ! Suc i)) \<and>
   (\<forall>k. filter (\<lambda>x. bandwidth x = k) (sorted_out db_csv) =
        filter (\<lambda>x. bandwidth x = k) (out (fst (run_loop db_csv)))) \<and>
   mset (sorted_out db_csv) = mset (out (fst (run_loop db_csv))) \<and>
   (raised (main db_csv) = None \<longrightarrow>
      frequencies_json (main db_csv) = Some (json_dump (sorted_out db_csv) True) \<and>
      out (fst (run_loop db_csv)) = concat (map line_out (file_lines db_csv)))"
proof (intro conjI allI impI)
  show s: "sorted_wrt (\<lambda>a b. bandwidth a \<ge> bandwidth b) (sorted_out db_csv)"
    unfolding sorted_out_def by (rule sorted_list_sort_reverse)
  show "bandwidth (sorted_out db_csv ! i) \<ge> bandwidth (sorted_out db_csv ! Suc i)"
    if "Suc i < length (sorted_out db_csv)" for i
    using s that by (rule sorted_wrt_adjacent)
  show "filter (\<lambda>x. bandwidth x = k) (sorted_out db_csv) =
        filter (\<lambda>x. bandwidth x = k) (out (fst (run_loop db_csv)))" for k
    unfolding sorted_out_def by (rule stable_list_sort_reverse)
  show "mset (sorted_out db_csv) = mset (out (fst (run_loop db_csv)))"
    by (simp add: sorted_out_def mset_list_sort)
next
  assume r: "raised (main db_csv) = None"
  then show "frequencies_json (main db_csv) = Some (json_dump (sorted_out db_csv) True)"
    by (simp add: raised_main frequencies_json_main)
  from r have "\<forall>l \<in> set (file_lines db_csv). \<not> line_raises l"
    by (simp add: raised_main run_loop_eq split: if_splits)
  then show "out (fst (run_loop db_csv)) = concat (map line_out (file_lines db_csv))"
    by (simp add: run_loop_eq takeWhile_all)
qed

theorem output_sorted_stable_witness:
  "raised (main ''a*1*2*x*x*x*x*u*\<newline>b*5*2*x*x*x*x*u*\<newline>c*3*4*x*x*x*x*u*\<newline>d*0*0*x*x*x*x*u*\<newline>e*1*11*x*x*x*x*u*\<newline>a*b\<newline>'') = None \<and>
   map description (out (fst (run_loop ''a*1*2*x*x*x*x*u*\<newline>b*5*2*x*x*x*x*u*\<newline>c*3*4*x*x*x*x*u*\<newline>d*0*0*x*x*x*x*u*\<newline>e*1*11*x*x*x*x*u*\<newline>a*b\<newline>''))) = [''a'', ''b'', ''c'', ''e''] \<and>
   map description (sorted_out ''a*1*2*x*x*x*x*u*\<newline>b*5*2*x*x*x*x*u*\<newline>c*3*4*x*x*x*x*u*\<newline>d*0*0*x*x*x*x*u*\<newline>e*1*11*x*x*x*x*u*\<newline>a*b\<newline>'') = [''e'', ''a'', ''c'', ''b''] \<and>
   map bandwidth (sorted_out ''a*1*2*x*x*x*x*u*\<newline>b*5*2*x*x*x*x*u*\<newline>c*3*4*x*x*x*x*u*\<newline>d*0*0*x*x*x*x*u*\<newline>e*1*11*x*x*x*x*u*\<newline>a*b\<newline>'') = [10, 1, 1, - 3] \<and>
   Suc 1 < length (sorted_out ''a*1*2*x*x*x*x*u*\<newline>b*5*2*x*x*x*x*u*\<newline>c*3*4*x*x*x*x*u*\<newline>d*0*0*x*x*x*x*u*\<newline>e*1*11*x*x*x*x*u*\<newline>a*b\<newline>'') \<and>
   bandwidth (sorted_out ''a*1*2*x*x*x*x*u*\<newline>b*5*2*x*x*x*x*u*\<newline>c*3*4*x*x*x*x*u*\<newline>d*0*0*x*x*x*x*u*\<newline>e*1*11*x*x*x*x*u*\<newline>a*b\<newline>'' ! 1) \<ge> bandwidth (sorted_out ''a*1*2*x*x*x*x*u*\<newline>b*5*2*x*x*x*x*u*\<newline>c*3*4*x*x*x*x*u*\<newline>d*0*0*x*x*x*x*u*\<newline>e*1*11*x*x*x*x*u*\<newline>a*b\<newline>'' ! Suc 1) \<and>
   frequencies_json (main ''a*1*2*x*x*x*x*u*\<newline>b*5*2*x*x*x*x*u*\<newline>c*3*4*x*x*x*x*u*\<newline>d*0*0*x*x*x*x*u*\<newline>e*1*11*x*x*x*x*u*\<newline>a*b\<newline>'') = Some (json_dump (sorted_out ''a*1*2*x*x*x*x*u*\<newline>b*5*2*x*x*x*x*u*\<newline>c*3*4*x*x*x*x*u*\<newline>d*0*0*x*x*x*x*u*\<newline>e*1*11*x*x*x*x*u*\<newline>a*b\<newline>'') True)"
proof -
  have r: "raised (main ''a*1*2*x*x*x*x*u*\<newline>b*5*2*x*x*x*x*u*\<newline>c*3*4*x*x*x*x*u*\<newline>d*0*0*x*x*x*x*u*\<newline>e*1*11*x*x*x*x*u*\<newline>a*b\<newline>'') = None" by code_simp
  have o: "map description (out (fst (run_loop ''a*1*2*x*x*x*x*u*\<newline>b*5*2*x*x*x*x*u*\<newline>c*3*4*x*x*x*x*u*\<newline>d*0*0*x*x*x*x*u*\<newline>e*1*11*x*x*x*x*u*\<newline>a*b\<newline>''))) = [''a'', ''b'', ''c'', ''e'']" by code_simp
  have d: "map description (sorted_out ''a*1*2*x*x*x*x*u*\<newline>b*5*2*x*x*x*x*u*\<newline>c*3*4*x*x*x*x*u*\<newline>d*0*0*x*x*x*x*u*\<newline>e*1*11*x*x*x*x*u*\<newline>a*b\<newline>'') = [''e'', ''a'', ''c'', ''b'']" by code_simp
  have b: "map bandwidth (sorted_out ''a*1*2*x*x*x*x*u*\<newline>b*5*2*x*x*x*x*u*\<newline>c*3*4*x*x*x*x*u*\<newline>d*0*0*x*x*x*x*u*\<newline>e*1*11*x*x*x*x*u*\<newline>a*b\<newline>'') = [10, 1, 1, - 3]" by code_simp
  have l: "Suc 1 < length (sorted_out ''a*1*2*x*x*x*x*u*\<newline>b*5*2*x*x*x*x*u*\<newline>c*3*4*x*x*x*x*u*\<newline>d*0*0*x*x*x*x*u*\<newline>e*1*11*x*x*x*x*u*\<newline>a*b\<newline>'')" by code_simp
  show ?thesis
    using r o d b l output_sorted_stable[of "''a*1*2*x*x*x*x*u*\<newline>b*5*2*x*x*x*x*u*\<newline>c*3*4*x*x*x*x*u*\<newline>d*0*0*x*x*x*x*u*\<newline>e*1*11*x*x*x*x*u*\<newline>a*b\<newline>''"]
    by blast
qed

section \<open>Entries whose stop lies below their start\<close>

text \<open>
  Claim C10. Nothing compares the two frequencies with each other. A line of at least eight
  fields whose field 2 converts to a smaller integer than its field 1 contributes its
  entry like any other; the entry's bandwidth is negative; when the run raises nothing the
  entry is in the sorted list; and in the sorted list every entry of bandwidth at least 0
  stands before every entry of negative bandwidth.
\<close>

theorem negative_bandwidth_last:
  "(8 \<le> length (str_split line CHR ''*'') \<and>
    py_int (str_split line CHR ''*'' ! 1) = Some a \<and>
    py_int (str_split line CHR ''*'' ! 2) = Some b \<and> b < a \<longrightarrow>
      line_out line = [\<lparr>freqStart = a, freqStop = b, description = str_split line CHR ''*'' ! 0,
                        url = str_split line CHR ''*'' ! 7\<rparr>] \<and>
      bandwidth \<lparr>freqStart = a, freqStop = b, description = str_split line CHR ''*'' ! 0,
                 url = str_split line CHR ''*'' ! 7\<rparr> < 0 \<and>
      (raised (main db_csv) = None \<and> line \<in> set (file_lines db_csv) \<longrightarrow>
         \<lparr>freqStart = a, freqStop = b, description = str_split line CHR ''*'' ! 0,
          url = str_split line CHR ''*'' ! 7\<rparr> \<in> set (sorted_out db_csv))) \<and>
   (i < length (sorted_out db_csv) \<and> j < length (sorted_out db_csv) \<and>
    0 \<le> bandwidth (sorted_out db_csv ! i) \<and> bandwidth (sorted_out db_csv ! j) < 0 \<longrightarrow> i < j)"
proof (intro conjI impI)
  assume h: "8 \<le> length (str_split line CHR ''*'') \<and>
    py_int (str_split line CHR ''*'' ! 1) = Some a \<and>
    py_int (str_split line CHR ''*'' ! 2) = Some b \<and> b < a"
  then show o: "line_out line = [\<lparr>freqStart = a, freqStop = b, description = str_split line CHR ''*'' ! 0,
                        url = str_split line CHR ''*'' ! 7\<rparr>]"
    by (auto simp: line_out_eq Let_def)
  from h show "bandwidth \<lparr>freqStart = a, freqStop = b, description = str_split line CHR ''*'' ! 0,
                 url = str_split line CHR ''*'' ! 7\<rparr> < 0"
    by (simp add: bandwidth_def)
  assume m: "raised (main db_csv) = None \<and> line \<in> set (file_lines db_csv)"
  then have "\<forall>l \<in> set (file_lines db_csv). \<not> line_raises l"
    by (simp add: raised_main run_loop_eq split: if_splits)
  then have "out (fst (run_loop db_csv)) = concat (map line_out (file_lines db_csv))"
    by (simp add: run_loop_eq takeWhile_all)
  with m o have "\<lparr>freqStart = a, freqStop = b, description = str_split line CHR ''*'' ! 0,
          url = str_split line CHR ''*'' ! 7\<rparr> \<in> set (out (fst (run_loop db_csv)))"
    by (auto intro!: bexI[of _ line])
  moreover have "set (sorted_out db_csv) = set (out (fst (run_loop db_csv)))"
    using mset_list_sort[of bandwidth True "out (fst (run_loop db_csv))"]
    unfolding sorted_out_def by (rule mset_eq_setD)
  ultimately show "\<lparr>freqStart = a, freqStop = b, description = str_split line CHR ''*'' ! 0,
          url = str_split line CHR ''*'' ! 7\<rparr> \<in> set (sorted_out db_csv)"
    by simp
next
  assume h: "i < length (sorted_out db_csv) \<and> j < length (sorted_out db_csv) \<and>
    0 \<le> bandwidth (sorted_out db_csv ! i) \<and> bandwidth (sorted_out db_csv ! j) < 0"
  have s: "sorted_wrt (\<lambda>a b. bandwidth a \<ge> bandwidth b) (sorted_out db_csv)"
    unfolding sorted_out_def by (rule sorted_list_sort_reverse)
  show "i < j"
  proof (rule ccontr)
    assume "\<not> i < j"
    then consider "j < i" | "j = i" by linarith
    then show False
    proof cases
      case 1
      with s h have "bandwidth (sorted_out db_csv ! j) \<ge> bandwidth (sorted_out db_csv ! i)"
        by (simp add: sorted_wrt_iff_nth_less)
      with h show False by linarith
    next
      case 2
      with h show False by auto
    qed
  qed
qed


theorem negative_bandwidth_last_witness:
  "(8 \<le> length (str_split ''b*5*2*x*x*x*x*u*\<newline>'' CHR ''*'') \<and>
    py_int (str_split ''b*5*2*x*x*x*x*u*\<newline>'' CHR ''*'' ! 1) = Some 5 \<and>
    py_int (str_split ''b*5*2*x*x*x*x*u*\<newline>'' CHR ''*'' ! 2) = Some 2 \<and> (2::int) < 5) \<and>
   (raised (main ''a*1*2*x*x*x*x*u*\<newline>b*5*2*x*x*x*x*u*\<newline>c*3*4*x*x*x*x*u*\<newline>d*0*0*x*x*x*x*u*\<newline>e*1*11*x*x*x*x*u*\<newline>a*b\<newline>'') = None \<and> ''b*5*2*x*x*x*x*u*\<newline>'' \<in> set (file_lines ''a*1*2*x*x*x*x*u*\<newline>b*5*2*x*x*x*x*u*\<newline>c*3*4*x*x*x*x*u*\<newline>d*0*0*x*x*x*x*u*\<newline>e*1*11*x*x*x*x*u*\<newline>a*b\<newline>'')) \<and>
   \<lparr>freqStart = 5, freqStop = 2, description = str_split ''b*5*2*x*x*x*x*u*\<newline>'' CHR ''*'' ! 0,
    url = str_split ''b*5*2*x*x*x*x*u*\<newline>'' CHR ''*'' ! 7\<rparr> \<in> set (sorted_out ''a*1*2*x*x*x*x*u*\<newline>b*5*2*x*x*x*x*u*\<newline>c*3*4*x*x*x*x*u*\<newline>d*0*0*x*x*x*x*u*\<newline>e*1*11*x*x*x*x*u*\<newline>a*b\<newline>'') \<and>
   map bandwidth (sorted_out ''a*1*2*x*x*x*x*u*\<newline>b*5*2*x*x*x*x*u*\<newline>c*3*4*x*x*x*x*u*\<newline>d*0*0*x*x*x*x*u*\<newline>e*1*11*x*x*x*x*u*\<newline>a*b\<newline>'') = [10, 1, 1, - 3] \<and>
   map description (sorted_out ''a*1*2*x*x*x*x*u*\<newline>b*5*2*x*x*x*x*u*\<newline>c*3*4*x*x*x*x*u*\<newline>d*0*0*x*x*x*x*u*\<newline>e*1*11*x*x*x*x*u*\<newline>a*b\<newline>'') = [''e'', ''a'', ''c'', ''b'']"
proof -
  have h: "8 \<le> length (str_split ''b*5*2*x*x*x*x*u*\<newline>'' CHR ''*'') \<and>
    py_int (str_split ''b*5*2*x*x*x*x*u*\<newline>'' CHR ''*'' ! 1) = Some 5 \<and>
    py_int (str_split ''b*5*2*x*x*x*x*u*\<newline>'' CHR ''*'' ! 2) = Some 2 \<and> (2::int) < 5"
    by code_simp
  have r: "raised (main ''a*1*2*x*x*x*x*u*\<newline>b*5*2*x*x*x*x*u*\<newline>c*3*4*x*x*x*x*u*\<newline>d*0*0*x*x*x*x*u*\<newline>e*1*11*x*x*x*x*u*\<newline>a*b\<newline>'') = None" by code_simp
  have l: "''b*5*2*x*x*x*x*u*\<newline>'' \<in> set (file_lines ''a*1*2*x*x*x*x*u*\<newline>b*5*2*x*x*x*x*u*\<newline>c*3*4*x*x*x*x*u*\<newline>d*0*0*x*x*x*x*u*\<newline>e*1*11*x*x*x*x*u*\<newline>a*b\<newline>'')" by code_simp
  have b: "map bandwidth (sorted_out ''a*1*2*x*x*x*x*u*\<newline>b*5*2*x*x*x*x*u*\<newline>c*3*4*x*x*x*x*u*\<newline>d*0*0*x*x*x*x*u*\<newline>e*1*11*x*x*x*x*u*\<newline>a*b\<newline>'') = [10, 1, 1, - 3]" by code_simp
  have d: "map description (sorted_out ''a*1*2*x*x*x*x*u*\<newline>b*5*2*x*x*x*x*u*\<newline>c*3*4*x*x*x*x*u*\<newline>d*0*0*x*x*x*x*u*\<newline>e*1*11*x*x*x*x*u*\<newline>a*b\<newline>'') = [''e'', ''a'', ''c'', ''b'']" by code_simp
  show ?thesis
    using h r l b d
      negative_bandwidth_last[where line = "''b*5*2*x*x*x*x*u*\<newline>''" and a = 5 and b = 2 and db_csv = "''a*1*2*x*x*x*x*u*\<newline>b*5*2*x*x*x*x*u*\<newline>c*3*4*x*x*x*x*u*\<newline>d*0*0*x*x*x*x*u*\<newline>e*1*11*x*x*x*x*u*\<newline>a*b\<newline>''"]
    by blast
qed

section \<open>Nothing to write\<close>

text \<open>
  Claim C9. For the empty file the run writes \<^verbatim>\<open>[]\<close>, prints nothing and raises nothing.
  The same text is written whenever every line of the file has fewer than eight fields or
  has both frequencies zero: the sorted list is empty.
\<close>

theorem nothing_retained_empty_array:
  "main [] = \<lparr>frequencies_json = Some ''[]'', printed = [], raised = None\<rparr> \<and>
   ((\<forall>l \<in> set (file_lines db_csv).
        length (str_split l CHR ''*'') < 8 \<or>
        (py_int (str_split l CHR ''*'' ! 1) = Some 0 \<and> py_int (str_split l CHR ''*'' ! 2) = Some 0)) \<longrightarrow>
      raised (main db_csv) = None \<and> sorted_out db_csv = [] \<and>
      frequencies_json (main db_csv) = Some ''[]'')"
proof (intro conjI impI)
  show "main [] = \<lparr>frequencies_json = Some ''[]'', printed = [], raised = None\<rparr>"
    by (simp add: main_def run_loop_def file_lines_def sorted_out_def list_sort_def json_dump_def)
next
  assume a: "\<forall>l \<in> set (file_lines db_csv).
        length (str_split l CHR ''*'') < 8 \<or>
        (py_int (str_split l CHR ''*'' ! 1) = Some 0 \<and> py_int (str_split l CHR ''*'' ! 2) = Some 0)"
  then have n: "\<forall>l \<in> set (file_lines db_csv). \<not> line_raises l"
    by (auto simp: line_raises_iff)
  from a have e: "\<forall>l \<in> set (file_lines db_csv). line_out l = []"
    by (auto simp: line_out_eq Let_def)
  from n show r: "raised (main db_csv) = None"
    by (simp add: raised_main run_loop_eq)
  from n e have "out (fst (run_loop db_csv)) = []"
    by (simp add: run_loop_eq takeWhile_all)
  then show s: "sorted_out db_csv = []"
    by (simp add: sorted_out_def list_sort_def)
  from r s show "frequencies_json (main db_csv) = Some ''[]''"
    by (simp add: raised_main frequencies_json_main json_dump_def)
qed


theorem nothing_retained_empty_array_witness:
  "list_all (\<lambda>l. length (str_split l CHR ''*'') < 8 \<or>
        (py_int (str_split l CHR ''*'' ! 1) = Some 0 \<and> py_int (str_split l CHR ''*'' ! 2) = Some 0))
     (file_lines ''x*y\<newline>Invalid*0*0*x*x*x*x*u\<newline>\<newline>-*+0*-0_0*x*x*x*x*u*v'') \<and>
   length (file_lines ''x*y\<newline>Invalid*0*0*x*x*x*x*u\<newline>\<newline>-*+0*-0_0*x*x*x*x*u*v'') = 4 \<and>
   raised (main ''x*y\<newline>Invalid*0*0*x*x*x*x*u\<newline>\<newline>-*+0*-0_0*x*x*x*x*u*v'') = None \<and> sorted_out ''x*y\<newline>Invalid*0*0*x*x*x*x*u\<newline>\<newline>-*+0*-0_0*x*x*x*x*u*v'' = [] \<and>
   frequencies_json (main ''x*y\<newline>Invalid*0*0*x*x*x*x*u\<newline>\<newline>-*+0*-0_0*x*x*x*x*u*v'') = Some ''[]''"
proof -
  have h: "list_all (\<lambda>l. length (str_split l CHR ''*'') < 8 \<or>
        (py_int (str_split l CHR ''*'' ! 1) = Some 0 \<and> py_int (str_split l CHR ''*'' ! 2) = Some 0))
     (file_lines ''x*y\<newline>Invalid*0*0*x*x*x*x*u\<newline>\<newline>-*+0*-0_0*x*x*x*x*u*v'')"
    by code_simp
  then have b: "\<forall>l \<in> set (file_lines ''x*y\<newline>Invalid*0*0*x*x*x*x*u\<newline>\<newline>-*+0*-0_0*x*x*x*x*u*v'').
        length (str_split l CHR ''*'') < 8 \<or>
        (py_int (str_split l CHR ''*'' ! 1) = Some 0 \<and> py_int (str_split l CHR ''*'' ! 2) = Some 0)"
    by (simp only: list_all_iff)
  have n: "length (file_lines ''x*y\<newline>Invalid*0*0*x*x*x*x*u\<newline>\<newline>-*+0*-0_0*x*x*x*x*u*v'') = 4" by code_simp
  show ?thesis
    using h b n nothing_retained_empty_array[of "''x*y\<newline>Invalid*0*0*x*x*x*x*u\<newline>\<newline>-*+0*-0_0*x*x*x*x*u*v''"]
    by blast
qed

section \<open>The example of the FM band\<close>

text \<open>
  Claim C3, as stated: the line
  \<^verbatim>\<open>FM Radio*88000000*108000000*Broadcast*x*x*x*http://example.com/fm\<close> with its line
  feed gives the entry whose \<^verbatim>\<open>url\<close> is \<^verbatim>\<open>http://example.com/fm\<close>. It does not: the line
  has exactly eight fields, field 7 is the last one, and it keeps the line feed. Neither
  the sorted list nor the text written is that of the stated entry.
\<close>

theorem fm_radio_entry_counterexample:
  "sorted_out ''FM Radio*88000000*108000000*Broadcast*x*x*x*http://example.com/fm\<newline>'' \<noteq>
     [\<lparr>freqStart = 88000000, freqStop = 108000000, description = ''FM Radio'',
       url = ''http://example.com/fm''\<rparr>] \<and>
   frequencies_json (main ''FM Radio*88000000*108000000*Broadcast*x*x*x*http://example.com/fm\<newline>'') \<noteq>
     Some (json_dump [\<lparr>freqStart = 88000000, freqStop = 108000000, description = ''FM Radio'',
                       url = ''http://example.com/fm''\<rparr>] True)"
proof -
  have s: "sorted_out ''FM Radio*88000000*108000000*Broadcast*x*x*x*http://example.com/fm\<newline>'' =
     [\<lparr>freqStart = 88000000, freqStop = 108000000, description = ''FM Radio'',
       url = ''http://example.com/fm\<newline>''\<rparr>]"
    by code_simp
  have m: "frequencies_json (main ''FM Radio*88000000*108000000*Broadcast*x*x*x*http://example.com/fm\<newline>'') =
     Some (''[{'' @ [CHR 0x22] @ ''description'' @ [CHR 0x22] @ '': '' @ [CHR 0x22] @ ''FM Radio'' @ [CHR 0x22] @
           '', '' @ [CHR 0x22] @ ''freqStart'' @ [CHR 0x22] @ '': 88000000, '' @
           [CHR 0x22] @ ''freqStop'' @ [CHR 0x22] @ '': 108000000, '' @
           [CHR 0x22] @ ''url'' @ [CHR 0x22] @ '': '' @ [CHR 0x22] @ ''http://example.com/fm'' @
           [CHR 0x5C] @ ''n'' @ [CHR 0x22] @ ''}]'')"
    by code_simp
  have j: "json_dump [\<lparr>freqStart = 88000000, freqStop = 108000000, description = ''FM Radio'',
                       url = ''http://example.com/fm''\<rparr>] True =
     ''[{'' @ [CHR 0x22] @ ''description'' @ [CHR 0x22] @ '': '' @ [CHR 0x22] @ ''FM Radio'' @ [CHR 0x22] @
           '', '' @ [CHR 0x22] @ ''freqStart'' @ [CHR 0x22] @ '': 88000000, '' @
           [CHR 0x22] @ ''freqStop'' @ [CHR 0x22] @ '': 108000000, '' @
           [CHR 0x22] @ ''url'' @ [CHR 0x22] @ '': '' @ [CHR 0x22] @ ''http://example.com/fm'' @
           [CHR 0x22] @ ''}]''"
    by code_simp
  show ?thesis by (simp add: s m j)
qed


text \<open>
  Claim C3, amended: the line gives exactly one entry, with \<^verbatim>\<open>description\<close>
  \<^verbatim>\<open>FM Radio\<close>, \<^verbatim>\<open>freqStart\<close> 88000000, \<^verbatim>\<open>freqStop\<close> 108000000 and the \<^verbatim>\<open>url\<close>
  \<^verbatim>\<open>http://example.com/fm\<close> followed by the line feed, which the text written shows as
  the escape \<^verbatim>\<open>\n\<close>. Nothing is printed and nothing is raised.
\<close>

theorem fm_radio_url_keeps_line_feed:
  "sorted_out ''FM Radio*88000000*108000000*Broadcast*x*x*x*http://example.com/fm\<newline>'' =
     [\<lparr>freqStart = 88000000, freqStop = 108000000, description = ''FM Radio'',
       url = ''http://example.com/fm\<newline>''\<rparr>] \<and>
   main ''FM Radio*88000000*108000000*Broadcast*x*x*x*http://example.com/fm\<newline>'' =
     \<lparr>frequencies_json =
        Some (''[{'' @ [CHR 0x22] @ ''description'' @ [CHR 0x22] @ '': '' @ [CHR 0x22] @ ''FM Radio'' @ [CHR 0x22] @
           '', '' @ [CHR 0x22] @ ''freqStart'' @ [CHR 0x22] @ '': 88000000, '' @
           [CHR 0x22] @ ''freqStop'' @ [CHR 0x22] @ '': 108000000, '' @
           [CHR 0x22] @ ''url'' @ [CHR 0x22] @ '': '' @ [CHR 0x22] @ ''http://example.com/fm'' @
           [CHR 0x5C] @ ''n'' @ [CHR 0x22] @ ''}]''),
      printed = [], raised = None\<rparr>"
  by code_simp

section \<open>Reading back what was dumped\<close>

lemma char_of_code: "(of_char c :: nat) = k \<Longrightarrow> c = char_of k"
  by (metis char_of_char)

lemma hex_val_hex_digit: "k < 16 \<Longrightarrow> hex_val (hex_digit k) = Some k"
proof -
  assume "k < 16"
  then have "k = 0 \<or> k = 1 \<or> k = 2 \<or> k = 3 \<or> k = 4 \<or> k = 5 \<or> k = 6 \<or> k = 7 \<or>
             k = 8 \<or> k = 9 \<or> k = 10 \<or> k = 11 \<or> k = 12 \<or> k = 13 \<or> k = 14 \<or> k = 15"
    by arith
  then show ?thesis
    by (elim disjE) (simp_all add: hex_val_def hex_digit_def)
qed

lemma hex4_hex_digits:
  "hex4 CHR ''0'' CHR ''0'' (hex_digit (of_char c div 16)) (hex_digit (of_char c mod 16)) = Some c"
proof -
  have a: "hex_val (hex_digit (of_char c div 16)) = Some (of_char c div 16)"
    by (rule hex_val_hex_digit) (rule of_char_div_16)
  have b: "hex_val (hex_digit (of_char c mod 16)) = Some (of_char c mod 16)"
    by (rule hex_val_hex_digit) simp
  have z: "hex_val CHR ''0'' = Some 0" by (simp add: hex_val_def)
  have "char_of ((of_char c :: nat) div 16 * 16 + of_char c mod 16) = c" by simp
  with a b z show ?thesis by (simp add: hex4_def)
qed


lemma scan_string_escape:
  "unescape e = Some ch \<Longrightarrow> e \<noteq> CHR ''u'' \<Longrightarrow>
     scan_string (CHR 0x5C # e # t) = map_option (\<lambda>(s, r). (ch # s, r)) (scan_string t)"
  by simp

lemma scan_string_unicode:
  "hex4 h1 h2 h3 h4 = Some ch \<Longrightarrow>
     scan_string (CHR 0x5C # CHR ''u'' # h1 # h2 # h3 # h4 # t) =
       map_option (\<lambda>(s, r). (ch # s, r)) (scan_string t)"
  by simp

lemma scan_string_plain:
  "c \<noteq> CHR 0x22 \<Longrightarrow> c \<noteq> CHR 0x5C \<Longrightarrow> \<not> (of_char c :: nat) < 32 \<Longrightarrow>
     scan_string (c # t) = map_option (\<lambda>(s, r). (c # s, r)) (scan_string t)"
  by simp

lemma of_char_eq_numeral:
  "(of_char c :: nat) = 10 \<longleftrightarrow> c = CHR 0x0A"
  "(of_char c :: nat) = 13 \<longleftrightarrow> c = CHR 0x0D"
  "(of_char c :: nat) = 9 \<longleftrightarrow> c = CHR 0x09"
  "(of_char c :: nat) = 12 \<longleftrightarrow> c = CHR 0x0C"
  "(of_char c :: nat) = 8 \<longleftrightarrow> c = CHR 0x08"
  using of_char_eq_iff[of c "CHR 0x0A", where ?'a = nat]
    of_char_eq_iff[of c "CHR 0x0D", where ?'a = nat]
    of_char_eq_iff[of c "CHR 0x09", where ?'a = nat]
    of_char_eq_iff[of c "CHR 0x0C", where ?'a = nat]
    of_char_eq_iff[of c "CHR 0x08", where ?'a = nat]
  by simp_all

lemma scan_string_json_char:
  "scan_string (json_char c @ t) = map_option (\<lambda>(s, r). (c # s, r)) (scan_string t)"
proof -
  consider (quote) "c = CHR 0x22" | (backslash) "c = CHR 0x5C"
    | (nl) "(of_char c :: nat) = 10" | (cr) "(of_char c :: nat) = 13" | (tab) "(of_char c :: nat) = 9"
    | (ff) "(of_char c :: nat) = 12" | (bs) "(of_char c :: nat) = 8"
    | (uni) "c \<noteq> CHR 0x22" "c \<noteq> CHR 0x5C" "(of_char c :: nat) \<noteq> 10" "(of_char c :: nat) \<noteq> 13"
        "(of_char c :: nat) \<noteq> 9" "(of_char c :: nat) \<noteq> 12" "(of_char c :: nat) \<noteq> 8"
        "(of_char c :: nat) < 32 \<or> 126 < (of_char c :: nat)"
    | (plain) "c \<noteq> CHR 0x22" "c \<noteq> CHR 0x5C" "(of_char c :: nat) \<noteq> 10" "(of_char c :: nat) \<noteq> 13"
        "(of_char c :: nat) \<noteq> 9" "(of_char c :: nat) \<noteq> 12" "(of_char c :: nat) \<noteq> 8"
        "\<not> ((of_char c :: nat) < 32 \<or> 126 < (of_char c :: nat))"
    by blast
  then show ?thesis
  proof cases
    case quote
    have "json_char c = [CHR 0x5C, CHR 0x22]" using quote by (simp add: json_char_def)
    moreover have "unescape CHR 0x22 = Some c" using quote by (simp add: unescape_def)
    ultimately show ?thesis using scan_string_escape[of "CHR 0x22" c t] by simp
  next
    case backslash
    have "json_char c = [CHR 0x5C, CHR 0x5C]" using backslash by (simp add: json_char_def)
    moreover have "unescape CHR 0x5C = Some c" using backslash by (simp add: unescape_def)
    ultimately show ?thesis using scan_string_escape[of "CHR 0x5C" c t] by simp
  next
    case nl
    then have c: "c = CHR 0x0A" by (simp only: of_char_eq_numeral)
    have "json_char c = [CHR 0x5C, CHR ''n'']" using c by (simp add: json_char_def)
    moreover have "unescape CHR ''n'' = Some c" using c by (simp add: unescape_def)
    ultimately show ?thesis using scan_string_escape[of "CHR ''n''" c t] by simp
  next
    case cr
    then have c: "c = CHR 0x0D" by (simp only: of_char_eq_numeral)
    have "json_char c = [CHR 0x5C, CHR ''r'']" using c by (simp add: json_char_def)
    moreover have "unescape CHR ''r'' = Some c" using c by (simp add: unescape_def)
    ultimately show ?thesis using scan_string_escape[of "CHR ''r''" c t] by simp
  next
    case tab
    then have c: "c = CHR 0x09" by (simp only: of_char_eq_numeral)
    have "json_char c = [CHR 0x5C, CHR ''t'']" using c by (simp add: json_char_def)
    moreover have "unescape CHR ''t'' = Some c" using c by (simp add: unescape_def)
    ultimately show ?thesis using scan_string_escape[of "CHR ''t''" c t] by simp
  next
    case ff
    then have c: "c = CHR 0x0C" by (simp only: of_char_eq_numeral)
    have "json_char c = [CHR 0x5C, CHR ''f'']" using c by (simp add: json_char_def)
    moreover have "unescape CHR ''f'' = Some c" using c by (simp add: unescape_def)
    ultimately show ?thesis using scan_string_escape[of "CHR ''f''" c t] by simp
  next
    case bs
    then have c: "c = CHR 0x08" by (simp only: of_char_eq_numeral)
    have "json_char c = [CHR 0x5C, CHR ''b'']" using c by (simp add: json_char_def)
    moreover have "unescape CHR ''b'' = Some c" using c by (simp add: unescape_def)
    ultimately show ?thesis using scan_string_escape[of "CHR ''b''" c t] by simp
  next
    case uni
    then have "json_char c = [CHR 0x5C, CHR ''u'', CHR ''0'', CHR ''0'',
                 hex_digit (of_char c div 16), hex_digit (of_char c mod 16)]"
      by (simp add: json_char_def Let_def)
    then show ?thesis
      using scan_string_unicode[OF hex4_hex_digits[of c], of t] by simp
  next
    case plain
    then have "json_char c = [c]" by (simp add: json_char_def Let_def)
    then show ?thesis using scan_string_plain[of c t] plain by simp
  qed
qed

lemma scan_string_json:
  "scan_string (concat (map json_char s) @ CHR 0x22 # rest) = Some (s, rest)"
  by (induction s) (simp_all add: scan_string_json_char)


lemma decimal_hex_digit: "k < 10 \<Longrightarrow> is_digit (hex_digit k) \<and> digit_val (hex_digit k) = int k"
proof -
  assume "k < 10"
  then have "k = 0 \<or> k = 1 \<or> k = 2 \<or> k = 3 \<or> k = 4 \<or> k = 5 \<or> k = 6 \<or> k = 7 \<or>
             k = 8 \<or> k = 9"
    by arith
  then show ?thesis
    by (elim disjE) (simp_all add: is_digit_def digit_val_def hex_digit_def)
qed

lemma hex_digit_nonzero: "0 < k \<Longrightarrow> k < 10 \<Longrightarrow> hex_digit k \<noteq> CHR ''0''"
proof -
  assume "0 < k" "k < 10"
  then have "k = 1 \<or> k = 2 \<or> k = 3 \<or> k = 4 \<or> k = 5 \<or> k = 6 \<or> k = 7 \<or>
             k = 8 \<or> k = 9"
    by arith
  then show ?thesis
    by (elim disjE) (simp_all add: hex_digit_def)
qed

lemma str_digits_small: "n < 10 \<Longrightarrow> str_digits n = [hex_digit (nat n)]"
  by (subst str_digits.simps) simp

lemma str_digits_big:
  "\<not> n < 10 \<Longrightarrow> str_digits n = str_digits (n div 10) @ [hex_digit (nat (n mod 10))]"
  by (subst str_digits.simps) simp

lemma str_digits_not_Nil: "str_digits n \<noteq> []"
  by (cases "n < 10") (simp_all add: str_digits_small str_digits_big)

lemma is_digit_str_digits: "\<forall>c \<in> set (str_digits n). is_digit c"
proof (induction n rule: str_digits.induct)
  case (1 n)
  show ?case
  proof (cases "n < 10")
    case True
    then have "nat n < 10" by simp
    from decimal_hex_digit[OF this] True show ?thesis by (simp add: str_digits_small)
  next
    case False
    have "nat (n mod 10) < 10" by (simp add: nat_less_iff)
    from decimal_hex_digit[OF this] False 1 show ?thesis by (simp add: str_digits_big)
  qed
qed

lemma digits_value_snoc: "digits_value (ds @ [c]) = digits_value ds * 10 + digit_val c"
  by (simp add: digits_value_def)

lemma digits_value_str_digits: "0 \<le> n \<Longrightarrow> digits_value (str_digits n) = n"
proof (induction n rule: str_digits.induct)
  case (1 n)
  show ?case
  proof (cases "n < 10")
    case True
    with "1.prems" have k: "nat n < 10" by simp
    from decimal_hex_digit[OF k] "1.prems" True show ?thesis
      by (simp add: str_digits_small digits_value_def)
  next
    case False
    with "1.prems" have ih: "digits_value (str_digits (n div 10)) = n div 10"
      using "1.IH" by simp
    have k: "nat (n mod 10) < 10" by (simp add: nat_less_iff)
    have "digit_val (hex_digit (nat (n mod 10))) = n mod 10"
      using decimal_hex_digit[OF k] by simp
    with ih False show ?thesis
      by (simp add: str_digits_big digits_value_snoc)
  qed
qed

lemma hd_str_digits: "0 < n \<Longrightarrow> hd (str_digits n) \<noteq> CHR ''0''"
proof (induction n rule: str_digits.induct)
  case (1 n)
  show ?case
  proof (cases "n < 10")
    case True
    with "1.prems" have "0 < nat n" "nat n < 10" by simp_all
    from hex_digit_nonzero[OF this] True show ?thesis by (simp add: str_digits_small)
  next
    case False
    then have "0 < n div 10" by simp
    with False "1.IH" have "hd (str_digits (n div 10)) \<noteq> CHR ''0''" by simp
    with False show ?thesis
      by (simp add: str_digits_big str_digits_not_Nil)
  qed
qed

lemma no_leading_zero:
  "0 \<le> n \<Longrightarrow> \<not> (hd (str_digits n) = CHR ''0'' \<and> 1 < length (str_digits n))"
proof (cases "n < 10")
  case True
  then show ?thesis by (simp add: str_digits_small)
next
  case False
  then have "0 < n" by simp
  from hd_str_digits[OF this] show ?thesis by simp
qed

lemma scan_digits_str_digits:
  assumes "0 \<le> n" and "\<not> is_digit r" and "r \<noteq> CHR ''.''" and "r \<noteq> CHR ''e''" and "r \<noteq> CHR ''E''"
  shows "scan_digits (str_digits n @ r # rs) = Some (n, r # rs)"
proof -
  have d: "\<And>x. x \<in> set (str_digits n) \<Longrightarrow> is_digit x"
    using is_digit_str_digits by blast
  have t: "takeWhile is_digit (str_digits n @ r # rs) = str_digits n"
    using assms(2) by (simp add: takeWhile_append2[OF d])
  have e: "dropWhile is_digit (str_digits n @ r # rs) = r # rs"
    using assms(2) by (simp add: dropWhile_append2[OF d])
  from t e assms no_leading_zero[OF assms(1)] digits_value_str_digits[OF assms(1)]
  show ?thesis
    by (simp add: scan_digits_def Let_def str_digits_not_Nil)
qed

lemma is_digit_not_minus: "is_digit c \<Longrightarrow> c \<noteq> CHR ''-''"
  by (auto simp: is_digit_def)

lemma scan_number_str_int:
  assumes "\<not> is_digit r" and "r \<noteq> CHR ''.''" and "r \<noteq> CHR ''e''" and "r \<noteq> CHR ''E''"
  shows "scan_number (str_int i @ r # rs) = Some (i, r # rs)"
proof (cases "i < 0")
  case True
  then have "0 \<le> - i" by simp
  from scan_digits_str_digits[OF this assms] True show ?thesis
    by (simp add: scan_number_def str_int_def)
next
  case False
  then have n: "0 \<le> i" by simp
  obtain c cs where s: "str_digits i = c # cs"
    using str_digits_not_Nil[of i] by (cases "str_digits i") auto
  with is_digit_str_digits[of i] have "is_digit c" by simp
  then have "c \<noteq> CHR ''-''" by (rule is_digit_not_minus)
  with s have "scan_number (str_digits i @ r # rs) = scan_digits (str_digits i @ r # rs)"
    by (simp add: scan_number_def)
  with scan_digits_str_digits[OF n assms] False show ?thesis
    by (simp add: str_int_def)
qed


lemma lex_punct:
  "lex (CHR ''['' # t) = map_option (Cons LBracket) (lex t)"
  "lex (CHR '']'' # t) = map_option (Cons RBracket) (lex t)"
  "lex (CHR ''{'' # t) = map_option (Cons LBrace) (lex t)"
  "lex (CHR ''}'' # t) = map_option (Cons RBrace) (lex t)"
  "lex (CHR '','' # t) = map_option (Cons Comma) (lex t)"
  "lex (CHR '':'' # t) = map_option (Cons Colon) (lex t)"
  "lex (CHR '' '' # t) = lex t"
  by (simp_all add: lex.simps is_ws_def)

lemma lex_json_str: "lex (json_str s @ rest) = map_option (Cons (TStr s)) (lex rest)"
  by (simp add: json_str_def lex.simps is_ws_def scan_string_json)

lemma is_digit_lex:
  "is_digit c \<Longrightarrow>
     \<not> is_ws c \<and> c \<noteq> CHR ''['' \<and> c \<noteq> CHR '']'' \<and> c \<noteq> CHR ''{'' \<and> c \<noteq> CHR ''}'' \<and>
     c \<noteq> CHR '','' \<and> c \<noteq> CHR '':'' \<and> c \<noteq> CHR 0x22"
  by (auto simp: is_digit_def is_ws_def)

lemma lex_number:
  assumes w: "\<not> is_ws c \<and> c \<noteq> CHR ''['' \<and> c \<noteq> CHR '']'' \<and> c \<noteq> CHR ''{'' \<and> c \<noteq> CHR ''}'' \<and>
     c \<noteq> CHR '','' \<and> c \<noteq> CHR '':'' \<and> c \<noteq> CHR 0x22"
    and c: "c = CHR ''-'' \<or> is_digit c"
    and n: "scan_number (c # cs @ r # rs) = Some (i, r # rs)"
  shows "lex (c # cs @ r # rs) = map_option (Cons (TInt i)) (lex (r # rs))"
  apply (subst lex.simps(2))
  apply (simp only: w if_False)
  apply (simp only: c if_True n option.case prod.case)
  done

lemma lex_str_int:
  assumes "\<not> is_digit r" and "r \<noteq> CHR ''.''" and "r \<noteq> CHR ''e''" and "r \<noteq> CHR ''E''"
  shows "lex (str_int i @ r # rs) = map_option (Cons (TInt i)) (lex (r # rs))"
proof -
  obtain c cs where s: "str_int i = c # cs" and c: "c = CHR ''-'' \<or> is_digit c"
  proof (cases "i < 0")
    case True
    then have "str_int i = CHR ''-'' # str_digits (- i)" by (simp add: str_int_def)
    then show ?thesis using that by blast
  next
    case False
    obtain c cs where d: "str_digits i = c # cs"
      using str_digits_not_Nil[of i] by (cases "str_digits i") auto
    with is_digit_str_digits[of i] have "is_digit c" by simp
    moreover from False d have "str_int i = c # cs" by (simp add: str_int_def)
    ultimately show ?thesis using that by blast
  qed
  have n: "scan_number (c # cs @ r # rs) = Some (i, r # rs)"
    using scan_number_str_int[OF assms, of i rs] s by simp
  have w: "\<not> is_ws c \<and> c \<noteq> CHR ''['' \<and> c \<noteq> CHR '']'' \<and> c \<noteq> CHR ''{'' \<and> c \<noteq> CHR ''}'' \<and>
     c \<noteq> CHR '','' \<and> c \<noteq> CHR '':'' \<and> c \<noteq> CHR 0x22"
  proof (cases "is_digit c")
    case True
    then show ?thesis by (rule is_digit_lex)
  next
    case False
    with c have "c = CHR ''-''" by blast
    then show ?thesis by (simp add: is_ws_def)
  qed
  have "lex (c # cs @ r # rs) = map_option (Cons (TInt i)) (lex (r # rs))"
    by (rule lex_number[OF w c n])
  with s show ?thesis by simp
qed

lemma sorted_items:
  "sort_key fst (items d) =
     [(''description'', PStr (description d)), (''freqStart'', PInt (freqStart d)),
      (''freqStop'', PInt (freqStop d)), (''url'', PStr (url d))]"
  by (simp add: items_def)

lemma json_dict_text:
  "json_dict True (items d) =
     ''{'' @ json_str ''description'' @ '': '' @ json_str (description d) @ '', '' @
     json_str ''freqStart'' @ '': '' @ str_int (freqStart d) @ '', '' @
     json_str ''freqStop'' @ '': '' @ str_int (freqStop d) @ '', '' @
     json_str ''url'' @ '': '' @ json_str (url d) @ ''}''"
  by (simp add: json_dict_def sorted_items)

lemma lex_json_dict:
  "lex (json_dict True (items d) @ rest) =
     map_option (\<lambda>ts. LBrace # body_tokens d @ ts) (lex rest)"
proof -
  have i: "\<And>i rs. lex (str_int i @ CHR '','' # rs) = map_option (Cons (TInt i)) (lex (CHR '','' # rs))"
    by (rule lex_str_int) (simp_all add: is_digit_def)
  show ?thesis
    by (simp add: json_dict_text lex_punct lex_json_str i body_tokens_def option.map_comp comp_def)
qed


lemma lex_entries:
  "lex (join '', '' (map (\<lambda>d. json_dict True (items d)) xs) @ rest) =
     map_option (\<lambda>ts. entries_tokens xs @ ts) (lex rest)"
proof (induction xs rule: entries_tokens.induct)
  case 1
  show ?case by (simp add: option.map_ident)
next
  case (2 d)
  show ?case by (simp add: lex_json_dict)
next
  case (3 d e es)
  have "lex (join '', '' (map (\<lambda>d. json_dict True (items d)) (d # e # es)) @ rest) =
        lex (json_dict True (items d) @
             CHR '','' # CHR '' '' # (join '', '' (map (\<lambda>d. json_dict True (items d)) (e # es)) @ rest))"
    by simp
  also have "\<dots> = map_option (\<lambda>ts. LBrace # body_tokens d @ ts)
                     (map_option (Cons Comma)
                        (lex (join '', '' (map (\<lambda>d. json_dict True (items d)) (e # es)) @ rest)))"
    by (simp only: lex_json_dict lex_punct)
  also have "\<dots> = map_option (\<lambda>ts. LBrace # body_tokens d @ ts)
                     (map_option (Cons Comma)
                        (map_option (\<lambda>ts. entries_tokens (e # es) @ ts) (lex rest)))"
    by (simp only: 3)
  also have "\<dots> = map_option (\<lambda>ts. entries_tokens (d # e # es) @ ts) (lex rest)"
    by (cases "lex rest") simp_all
  finally show ?case .
qed

lemma lex_json_dump:
  "lex (json_dump xs True) = Some (LBracket # entries_tokens xs @ [RBracket])"
proof -
  have "lex '']'' = Some [RBracket]" by (simp add: lex_punct lex.simps(1))
  then have "lex (join '', '' (map (\<lambda>d. json_dict True (items d)) xs) @ '']'') =
             Some (entries_tokens xs @ [RBracket])"
    by (simp only: lex_entries option.map)
  then show ?thesis by (simp add: json_dump_def lex_punct)
qed

lemma object_body_tokens:
  "object_body (body_tokens d @ rest) = map_option (Cons (loaded d)) (after_object rest)"
  by (simp add: body_tokens_def loaded_def)

lemma entries_tokens_Cons: "entries_tokens (d # es) = LBrace # tl (entries_tokens (d # es))"
  by (cases es) simp_all

lemma object_body_entries:
  "object_body (tl (entries_tokens (d # es)) @ [RBracket]) = Some (map loaded (d # es))"
proof (induction es arbitrary: d)
  case Nil
  show ?case by (simp add: object_body_tokens)
next
  case (Cons e es)
  have "tl (entries_tokens (d # e # es)) @ [RBracket] =
        body_tokens d @ Comma # LBrace # (tl (entries_tokens (e # es)) @ [RBracket])"
    using entries_tokens_Cons[of e es] by simp
  then have "object_body (tl (entries_tokens (d # e # es)) @ [RBracket]) =
        map_option (Cons (loaded d)) (object_body (tl (entries_tokens (e # es)) @ [RBracket]))"
    by (simp only: object_body_tokens after_object.simps) simp
  with Cons show ?case by simp
qed

lemma json_loads_dump: "json_loads (json_dump xs True) = Some (map loaded xs)"
proof (cases xs)
  case Nil
  then show ?thesis by (simp add: json_loads_def lex_json_dump)
next
  case (Cons d es)
  have "entries_tokens xs @ [RBracket] = LBrace # (tl (entries_tokens (d # es)) @ [RBracket])"
    using entries_tokens_Cons[of d es] Cons by simp
  then have "json_loads (json_dump xs True) =
             object_body (tl (entries_tokens (d # es)) @ [RBracket])"
    by (simp add: json_loads_def lex_json_dump)
  with Cons show ?thesis by (simp only: object_body_entries)
qed


text \<open>
  Claim C7. Reading the dumped text back gives, for every list of entries, one dictionary
  per entry, in the order of the list; each dictionary has exactly the four items
  \<^verbatim>\<open>description\<close>, \<^verbatim>\<open>freqStart\<close>, \<^verbatim>\<open>freqStop\<close>, \<^verbatim>\<open>url\<close>, in this order in the text, which
  is the order \<^verbatim>\<open>sort_keys\<close> puts the keys in, and each value is the entry's field. So the
  text a run writes reads back as its sorted list.
\<close>

theorem dump_round_trip:
  "json_loads (json_dump xs True) =
     Some (map (\<lambda>d. [(''description'', PStr (description d)), (''freqStart'', PInt (freqStart d)),
                      (''freqStop'', PInt (freqStop d)), (''url'', PStr (url d))]) xs) \<and>
   map fst (sort_key fst (items e)) = [''description'', ''freqStart'', ''freqStop'', ''url''] \<and>
   (frequencies_json (main db_csv) = Some text \<longrightarrow>
      json_loads text =
        Some (map (\<lambda>d. [(''description'', PStr (description d)), (''freqStart'', PInt (freqStart d)),
                         (''freqStop'', PInt (freqStop d)), (''url'', PStr (url d))])
                  (sorted_out db_csv)))"
proof -
  have l: "loaded = (\<lambda>d. [(''description'', PStr (description d)), (''freqStart'', PInt (freqStart d)),
                      (''freqStop'', PInt (freqStop d)), (''url'', PStr (url d))])"
    by (rule ext) (simp add: loaded_def)
  have r: "json_loads (json_dump ys True) =
     Some (map (\<lambda>d. [(''description'', PStr (description d)), (''freqStart'', PInt (freqStart d)),
                      (''freqStop'', PInt (freqStop d)), (''url'', PStr (url d))]) ys)" for ys
    using json_loads_dump[of ys] by (simp only: l)
  have k: "map fst (sort_key fst (items e)) = [''description'', ''freqStart'', ''freqStop'', ''url'']"
    by (simp add: sorted_items)
  have t: "frequencies_json (main db_csv) = Some text \<Longrightarrow> text = json_dump (sorted_out db_csv) True"
    by (simp add: frequencies_json_main split: if_splits)
  from r k t show ?thesis by blast
qed

theorem dump_round_trip_witness:
  "frequencies_json (main ''a*1*2*x*x*x*x*u\<newline>b*-30*4*x*x*x*x*v\<newline>'') =
     Some (''[{'' @ [CHR 0x22] @ ''description'' @ [CHR 0x22] @ '': '' @ [CHR 0x22] @ ''b'' @ [CHR 0x22] @
        '', '' @ [CHR 0x22] @ ''freqStart'' @ [CHR 0x22] @ '': -30, '' @
        [CHR 0x22] @ ''freqStop'' @ [CHR 0x22] @ '': 4, '' @
        [CHR 0x22] @ ''url'' @ [CHR 0x22] @ '': '' @ [CHR 0x22] @ ''v'' @ [CHR 0x5C] @ ''n'' @ [CHR 0x22] @
        ''}, {'' @ [CHR 0x22] @ ''description'' @ [CHR 0x22] @ '': '' @ [CHR 0x22] @ ''a'' @ [CHR 0x22] @
        '', '' @ [CHR 0x22] @ ''freqStart'' @ [CHR 0x22] @ '': 1, '' @
        [CHR 0x22] @ ''freqStop'' @ [CHR 0x22] @ '': 2, '' @
        [CHR 0x22] @ ''url'' @ [CHR 0x22] @ '': '' @ [CHR 0x22] @ ''u'' @ [CHR 0x5C] @ ''n'' @ [CHR 0x22] @
        ''}]'') \<and>
   json_loads
     (''[{'' @ [CHR 0x22] @ ''description'' @ [CHR 0x22] @ '': '' @ [CHR 0x22] @ ''b'' @ [CHR 0x22] @
        '', '' @ [CHR 0x22] @ ''freqStart'' @ [CHR 0x22] @ '': -30, '' @
        [CHR 0x22] @ ''freqStop'' @ [CHR 0x22] @ '': 4, '' @
        [CHR 0x22] @ ''url'' @ [CHR 0x22] @ '': '' @ [CHR 0x22] @ ''v'' @ [CHR 0x5C] @ ''n'' @ [CHR 0x22] @
        ''}, {'' @ [CHR 0x22] @ ''description'' @ [CHR 0x22] @ '': '' @ [CHR 0x22] @ ''a'' @ [CHR 0x22] @
        '', '' @ [CHR 0x22] @ ''freqStart'' @ [CHR 0x22] @ '': 1, '' @
        [CHR 0x22] @ ''freqStop'' @ [CHR 0x22] @ '': 2, '' @
        [CHR 0x22] @ ''url'' @ [CHR 0x22] @ '': '' @ [CHR 0x22] @ ''u'' @ [CHR 0x5C] @ ''n'' @ [CHR 0x22] @
        ''}]'') =
     Some [[(''description'', PStr ''b''), (''freqStart'', PInt (- 30)), (''freqStop'', PInt 4),
            (''url'', PStr ''v\<newline>'')],
           [(''description'', PStr ''a''), (''freqStart'', PInt 1), (''freqStop'', PInt 2),
            (''url'', PStr ''u\<newline>'')]]"
proof -
  have h: "frequencies_json (main ''a*1*2*x*x*x*x*u\<newline>b*-30*4*x*x*x*x*v\<newline>'') =
     Some (''[{'' @ [CHR 0x22] @ ''description'' @ [CHR 0x22] @ '': '' @ [CHR 0x22] @ ''b'' @ [CHR 0x22] @
        '', '' @ [CHR 0x22] @ ''freqStart'' @ [CHR 0x22] @ '': -30, '' @
        [CHR 0x22] @ ''freqStop'' @ [CHR 0x22] @ '': 4, '' @
        [CHR 0x22] @ ''url'' @ [CHR 0x22] @ '': '' @ [CHR 0x22] @ ''v'' @ [CHR 0x5C] @ ''n'' @ [CHR 0x22] @
        ''}, {'' @ [CHR 0x22] @ ''description'' @ [CHR 0x22] @ '': '' @ [CHR 0x22] @ ''a'' @ [CHR 0x22] @
        '', '' @ [CHR 0x22] @ ''freqStart'' @ [CHR 0x22] @ '': 1, '' @
        [CHR 0x22] @ ''freqStop'' @ [CHR 0x22] @ '': 2, '' @
        [CHR 0x22] @ ''url'' @ [CHR 0x22] @ '': '' @ [CHR 0x22] @ ''u'' @ [CHR 0x5C] @ ''n'' @ [CHR 0x22] @
        ''}]'')"
    by code_simp
  have s: "sorted_out ''a*1*2*x*x*x*x*u\<newline>b*-30*4*x*x*x*x*v\<newline>'' =
     [\<lparr>freqStart = - 30, freqStop = 4, description = ''b'', url = ''v\<newline>''\<rparr>,
      \<lparr>freqStart = 1, freqStop = 2, description = ''a'', url = ''u\<newline>''\<rparr>]"
    by code_simp
  have "json_loads
     (''[{'' @ [CHR 0x22] @ ''description'' @ [CHR 0x22] @ '': '' @ [CHR 0x22] @ ''b'' @ [CHR 0x22] @
        '', '' @ [CHR 0x22] @ ''freqStart'' @ [CHR 0x22] @ '': -30, '' @
        [CHR 0x22] @ ''freqStop'' @ [CHR 0x22] @ '': 4, '' @
        [CHR 0x22] @ ''url'' @ [CHR 0x22] @ '': '' @ [CHR 0x22] @ ''v'' @ [CHR 0x5C] @ ''n'' @ [CHR 0x22] @
        ''}, {'' @ [CHR 0x22] @ ''description'' @ [CHR 0x22] @ '': '' @ [CHR 0x22] @ ''a'' @ [CHR 0x22] @
        '', '' @ [CHR 0x22] @ ''freqStart'' @ [CHR 0x22] @ '': 1, '' @
        [CHR 0x22] @ ''freqStop'' @ [CHR 0x22] @ '': 2, '' @
        [CHR 0x22] @ ''url'' @ [CHR 0x22] @ '': '' @ [CHR 0x22] @ ''u'' @ [CHR 0x5C] @ ''n'' @ [CHR 0x22] @
        ''}]'') =
     Some (map (\<lambda>d. [(''description'', PStr (description d)), (''freqStart'', PInt (freqStart d)),
                      (''freqStop'', PInt (freqStop d)), (''url'', PStr (url d))])
               (sorted_out ''a*1*2*x*x*x*x*u\<newline>b*-30*4*x*x*x*x*v\<newline>''))"
    using h dump_round_trip[where db_csv = "''a*1*2*x*x*x*x*u\<newline>b*-30*4*x*x*x*x*v\<newline>''"]
    by blast
  with h show ?thesis by (simp add: s)
qed

section \<open>The layout of the dumped text\<close>

lemma render_append: "render (a @ b) = render a @ render b"
  by (simp add: render_def)

lemma render_entry: "render (LBrace # body_tokens d) = json_dict True (items d)"
  by (simp add: render_def body_tokens_def json_dict_text)

lemma render_entries:
  "render (entries_tokens xs) = join '', '' (map (\<lambda>d. json_dict True (items d)) xs)"
proof (induction xs rule: entries_tokens.induct)
  case 1
  show ?case by (simp add: render_def)
next
  case (2 d)
  show ?case by (simp add: render_entry)
next
  case (3 d e es)
  have "render (entries_tokens (d # e # es)) =
        render (LBrace # body_tokens d) @ render [Comma] @ render (entries_tokens (e # es))"
    using render_append[of "LBrace # body_tokens d" "Comma # entries_tokens (e # es)"]
      render_append[of "[Comma]" "entries_tokens (e # es)"]
    by simp
  moreover have "render [Comma] = '', ''" by (simp add: render_def)
  ultimately show ?case using 3 by (simp add: render_entry)
qed

lemma render_json_dump:
  "json_dump xs True = render (LBracket # entries_tokens xs @ [RBracket])"
proof -
  have "render (LBracket # entries_tokens xs @ [RBracket]) =
        render [LBracket] @ render (entries_tokens xs) @ render [RBracket]"
    using render_append[of "[LBracket]" "entries_tokens xs @ [RBracket]"]
      render_append[of "entries_tokens xs" "[RBracket]"]
    by simp
  moreover have "render [LBracket] = ''[''" and "render [RBracket] = '']''"
    by (simp_all add: render_def)
  ultimately show ?thesis by (simp add: render_entries json_dump_def)
qed


text \<open>
  Claim C8. \<^verbatim>\<open>json.dump\<close> is called without \<^verbatim>\<open>indent\<close>: the text it writes is one
  line with no indentation. Every character of it lies between the blank and \<^verbatim>\<open>~\<close>, so
  it holds no line feed, no carriage return and no tab, also where a string of an entry
  holds one (the string is written with an escape). The text is exactly its own tokens
  written one after the other with one blank after each comma and each colon: between
  tokens there is no other white space.
\<close>

theorem dump_on_one_line:
  "(\<forall>c \<in> set (json_dump xs sort_keys). printable c) \<and>
   CHR 0x0A \<notin> set (json_dump xs sort_keys) \<and>
   CHR 0x0D \<notin> set (json_dump xs sort_keys) \<and>
   CHR 0x09 \<notin> set (json_dump xs sort_keys) \<and>
   lex (json_dump xs True) = Some (LBracket # entries_tokens xs @ [RBracket]) \<and>
   json_dump xs True = render (LBracket # entries_tokens xs @ [RBracket]) \<and>
   (frequencies_json (main db_csv) = Some text \<longrightarrow>
      (\<forall>c \<in> set text. printable c) \<and>
      CHR 0x0A \<notin> set text \<and> CHR 0x0D \<notin> set text \<and> CHR 0x09 \<notin> set text \<and>
      (\<exists>toks. lex text = Some toks \<and> text = render toks))"
proof -
  have n: "\<not> printable CHR 0x0A" "\<not> printable CHR 0x0D" "\<not> printable CHR 0x09"
    by (simp_all add: printable_def)
  have p: "\<forall>c \<in> set (json_dump ys b). printable c" for ys b
    by (rule printable_json_dump)
  have l: "lex (json_dump ys True) = Some (LBracket # entries_tokens ys @ [RBracket])" for ys
    by (rule lex_json_dump)
  have r: "json_dump ys True = render (LBracket # entries_tokens ys @ [RBracket])" for ys
    by (rule render_json_dump)
  have t: "frequencies_json (main db_csv) = Some text \<Longrightarrow> text = json_dump (sorted_out db_csv) True"
    by (simp add: frequencies_json_main split: if_splits)
  have e: "frequencies_json (main db_csv) = Some text \<Longrightarrow>
             \<exists>toks. lex text = Some toks \<and> text = render toks"
    using t l[of "sorted_out db_csv"] r[of "sorted_out db_csv"] by metis
  from n p l r t e show ?thesis by blast
qed

theorem dump_on_one_line_witness:
  "frequencies_json (main ''a*1*2*x*x*x*x*u\<newline>b*-3*4*x*x*x*x*v\<newline>'') =
     Some (''[{'' @ [CHR 0x22] @ ''description'' @ [CHR 0x22] @ '': '' @ [CHR 0x22] @ ''b'' @ [CHR 0x22] @
           '', '' @ [CHR 0x22] @ ''freqStart'' @ [CHR 0x22] @ '': -3, '' @
           [CHR 0x22] @ ''freqStop'' @ [CHR 0x22] @ '': 4, '' @
           [CHR 0x22] @ ''url'' @ [CHR 0x22] @ '': '' @ [CHR 0x22] @ ''v'' @ [CHR 0x5C] @ ''n'' @ [CHR 0x22] @
           ''}, {'' @ [CHR 0x22] @ ''description'' @ [CHR 0x22] @ '': '' @ [CHR 0x22] @ ''a'' @ [CHR 0x22] @
           '', '' @ [CHR 0x22] @ ''freqStart'' @ [CHR 0x22] @ '': 1, '' @
           [CHR 0x22] @ ''freqStop'' @ [CHR 0x22] @ '': 2, '' @
           [CHR 0x22] @ ''url'' @ [CHR 0x22] @ '': '' @ [CHR 0x22] @ ''u'' @ [CHR 0x5C] @ ''n'' @ [CHR 0x22] @
           ''}]'') \<and>
   CHR 0x0A \<notin> set (''[{'' @ [CHR 0x22] @ ''description'' @ [CHR 0x22] @ '': '' @ [CHR 0x22] @ ''b'' @ [CHR 0x22] @
           '', '' @ [CHR 0x22] @ ''freqStart'' @ [CHR 0x22] @ '': -3, '' @
           [CHR 0x22] @ ''freqStop'' @ [CHR 0x22] @ '': 4, '' @
           [CHR 0x22] @ ''url'' @ [CHR 0x22] @ '': '' @ [CHR 0x22] @ ''v'' @ [CHR 0x5C] @ ''n'' @ [CHR 0x22] @
           ''}, {'' @ [CHR 0x22] @ ''description'' @ [CHR 0x22] @ '': '' @ [CHR 0x22] @ ''a'' @ [CHR 0x22] @
           '', '' @ [CHR 0x22] @ ''freqStart'' @ [CHR 0x22] @ '': 1, '' @
           [CHR 0x22] @ ''freqStop'' @ [CHR 0x22] @ '': 2, '' @
           [CHR 0x22] @ ''url'' @ [CHR 0x22] @ '': '' @ [CHR 0x22] @ ''u'' @ [CHR 0x5C] @ ''n'' @ [CHR 0x22] @
           ''}]'') \<and>
   lex (''[{'' @ [CHR 0x22] @ ''description'' @ [CHR 0x22] @ '': '' @ [CHR 0x22] @ ''b'' @ [CHR 0x22] @
           '', '' @ [CHR 0x22] @ ''freqStart'' @ [CHR 0x22] @ '': -3, '' @
           [CHR 0x22] @ ''freqStop'' @ [CHR 0x22] @ '': 4, '' @
           [CHR 0x22] @ ''url'' @ [CHR 0x22] @ '': '' @ [CHR 0x22] @ ''v'' @ [CHR 0x5C] @ ''n'' @ [CHR 0x22] @
           ''}, {'' @ [CHR 0x22] @ ''description'' @ [CHR 0x22] @ '': '' @ [CHR 0x22] @ ''a'' @ [CHR 0x22] @
           '', '' @ [CHR 0x22] @ ''freqStart'' @ [CHR 0x22] @ '': 1, '' @
           [CHR 0x22] @ ''freqStop'' @ [CHR 0x22] @ '': 2, '' @
           [CHR 0x22] @ ''url'' @ [CHR 0x22] @ '': '' @ [CHR 0x22] @ ''u'' @ [CHR 0x5C] @ ''n'' @ [CHR 0x22] @
           ''}]'') =
     Some [LBracket,
      LBrace, TStr ''description'', Colon, TStr ''b'', Comma, TStr ''freqStart'', Colon, TInt (- 3), Comma,
      TStr ''freqStop'', Colon, TInt 4, Comma, TStr ''url'', Colon, TStr ''v\<newline>'', RBrace, Comma,
      LBrace, TStr ''description'', Colon, TStr ''a'', Comma, TStr ''freqStart'', Colon, TInt 1, Comma,
      TStr ''freqStop'', Colon, TInt 2, Comma, TStr ''url'', Colon, TStr ''u\<newline>'', RBrace,
      RBracket] \<and>
   (''[{'' @ [CHR 0x22] @ ''description'' @ [CHR 0x22] @ '': '' @ [CHR 0x22] @ ''b'' @ [CHR 0x22] @
           '', '' @ [CHR 0x22] @ ''freqStart'' @ [CHR 0x22] @ '': -3, '' @
           [CHR 0x22] @ ''freqStop'' @ [CHR 0x22] @ '': 4, '' @
           [CHR 0x22] @ ''url'' @ [CHR 0x22] @ '': '' @ [CHR 0x22] @ ''v'' @ [CHR 0x5C] @ ''n'' @ [CHR 0x22] @
           ''}, {'' @ [CHR 0x22] @ ''description'' @ [CHR 0x22] @ '': '' @ [CHR 0x22] @ ''a'' @ [CHR 0x22] @
           '', '' @ [CHR 0x22] @ ''freqStart'' @ [CHR 0x22] @ '': 1, '' @
           [CHR 0x22] @ ''freqStop'' @ [CHR 0x22] @ '': 2, '' @
           [CHR 0x22] @ ''url'' @ [CHR 0x22] @ '': '' @ [CHR 0x22] @ ''u'' @ [CHR 0x5C] @ ''n'' @ [CHR 0x22] @
           ''}]'') =
     render [LBracket,
      LBrace, TStr ''description'', Colon, TStr ''b'', Comma, TStr ''freqStart'', Colon, TInt (- 3), Comma,
      TStr ''freqStop'', Colon, TInt 4, Comma, TStr ''url'', Colon, TStr ''v\<newline>'', RBrace, Comma,
      LBrace, TStr ''description'', Colon, TStr ''a'', Comma, TStr ''freqStart'', Colon, TInt 1, Comma,
      TStr ''freqStop'', Colon, TInt 2, Comma, TStr ''url'', Colon, TStr ''u\<newline>'', RBrace,
      RBracket] \<and>
   lex ''[  ]'' = Some [LBracket, RBracket] \<and>
   ''[  ]'' \<noteq> render [LBracket, RBracket]"
proof -
  have h: "frequencies_json (main ''a*1*2*x*x*x*x*u\<newline>b*-3*4*x*x*x*x*v\<newline>'') =
     Some (''[{'' @ [CHR 0x22] @ ''description'' @ [CHR 0x22] @ '': '' @ [CHR 0x22] @ ''b'' @ [CHR 0x22] @
           '', '' @ [CHR 0x22] @ ''freqStart'' @ [CHR 0x22] @ '': -3, '' @
           [CHR 0x22] @ ''freqStop'' @ [CHR 0x22] @ '': 4, '' @
           [CHR 0x22] @ ''url'' @ [CHR 0x22] @ '': '' @ [CHR 0x22] @ ''v'' @ [CHR 0x5C] @ ''n'' @ [CHR 0x22] @
           ''}, {'' @ [CHR 0x22] @ ''description'' @ [CHR 0x22] @ '': '' @ [CHR 0x22] @ ''a'' @ [CHR 0x22] @
           '', '' @ [CHR 0x22] @ ''freqStart'' @ [CHR 0x22] @ '': 1, '' @
           [CHR 0x22] @ ''freqStop'' @ [CHR 0x22] @ '': 2, '' @
           [CHR 0x22] @ ''url'' @ [CHR 0x22] @ '': '' @ [CHR 0x22] @ ''u'' @ [CHR 0x5C] @ ''n'' @ [CHR 0x22] @
           ''}]'')"
    by code_simp
  have l: "lex (''[{'' @ [CHR 0x22] @ ''description'' @ [CHR 0x22] @ '': '' @ [CHR 0x22] @ ''b'' @ [CHR 0x22] @
           '', '' @ [CHR 0x22] @ ''freqStart'' @ [CHR 0x22] @ '': -3, '' @
           [CHR 0x22] @ ''freqStop'' @ [CHR 0x22] @ '': 4, '' @
           [CHR 0x22] @ ''url'' @ [CHR 0x22] @ '': '' @ [CHR 0x22] @ ''v'' @ [CHR 0x5C] @ ''n'' @ [CHR 0x22] @
           ''}, {'' @ [CHR 0x22] @ ''description'' @ [CHR 0x22] @ '': '' @ [CHR 0x22] @ ''a'' @ [CHR 0x22] @
           '', '' @ [CHR 0x22] @ ''freqStart'' @ [CHR 0x22] @ '': 1, '' @
           [CHR 0x22] @ ''freqStop'' @ [CHR 0x22] @ '': 2, '' @
           [CHR 0x22] @ ''url'' @ [CHR 0x22] @ '': '' @ [CHR 0x22] @ ''u'' @ [CHR 0x5C] @ ''n'' @ [CHR 0x22] @
           ''}]'') =
     Some [LBracket,
      LBrace, TStr ''description'', Colon, TStr ''b'', Comma, TStr ''freqStart'', Colon, TInt (- 3), Comma,
      TStr ''freqStop'', Colon, TInt 4, Comma, TStr ''url'', Colon, TStr ''v\<newline>'', RBrace, Comma,
      LBrace, TStr ''description'', Colon, TStr ''a'', Comma, TStr ''freqStart'', Colon, TInt 1, Comma,
      TStr ''freqStop'', Colon, TInt 2, Comma, TStr ''url'', Colon, TStr ''u\<newline>'', RBrace,
      RBracket]"
    by code_simp
  have p: "lex ''[  ]'' = Some [LBracket, RBracket]"
    by code_simp
  have q: "''[  ]'' \<noteq> render [LBracket, RBracket]"
    by (simp add: render_def)
  from h dump_on_one_line[where db_csv = "''a*1*2*x*x*x*x*u\<newline>b*-3*4*x*x*x*x*v\<newline>''"]
  obtain toks where n: "CHR 0x0A \<notin> set (''[{'' @ [CHR 0x22] @ ''description'' @ [CHR 0x22] @ '': '' @ [CHR 0x22] @ ''b'' @ [CHR 0x22] @
           '', '' @ [CHR 0x22] @ ''freqStart'' @ [CHR 0x22] @ '': -3, '' @
           [CHR 0x22] @ ''freqStop'' @ [CHR 0x22] @ '': 4, '' @
           [CHR 0x22] @ ''url'' @ [CHR 0x22] @ '': '' @ [CHR 0x22] @ ''v'' @ [CHR 0x5C] @ ''n'' @ [CHR 0x22] @
           ''}, {'' @ [CHR 0x22] @ ''description'' @ [CHR 0x22] @ '': '' @ [CHR 0x22] @ ''a'' @ [CHR 0x22] @
           '', '' @ [CHR 0x22] @ ''freqStart'' @ [CHR 0x22] @ '': 1, '' @
           [CHR 0x22] @ ''freqStop'' @ [CHR 0x22] @ '': 2, '' @
           [CHR 0x22] @ ''url'' @ [CHR 0x22] @ '': '' @ [CHR 0x22] @ ''u'' @ [CHR 0x5C] @ ''n'' @ [CHR 0x22] @
           ''}]'')"
    and a: "lex (''[{'' @ [CHR 0x22] @ ''description'' @ [CHR 0x22] @ '': '' @ [CHR 0x22] @ ''b'' @ [CHR 0x22] @
           '', '' @ [CHR 0x22] @ ''freqStart'' @ [CHR 0x22] @ '': -3, '' @
           [CHR 0x22] @ ''freqStop'' @ [CHR 0x22] @ '': 4, '' @
           [CHR 0x22] @ ''url'' @ [CHR 0x22] @ '': '' @ [CHR 0x22] @ ''v'' @ [CHR 0x5C] @ ''n'' @ [CHR 0x22] @
           ''}, {'' @ [CHR 0x22] @ ''description'' @ [CHR 0x22] @ '': '' @ [CHR 0x22] @ ''a'' @ [CHR 0x22] @
           '', '' @ [CHR 0x22] @ ''freqStart'' @ [CHR 0x22] @ '': 1, '' @
           [CHR 0x22] @ ''freqStop'' @ [CHR 0x22] @ '': 2, '' @
           [CHR 0x22] @ ''url'' @ [CHR 0x22] @ '': '' @ [CHR 0x22] @ ''u'' @ [CHR 0x5C] @ ''n'' @ [CHR 0x22] @
           ''}]'') = Some toks"
    and b: "(''[{'' @ [CHR 0x22] @ ''description'' @ [CHR 0x22] @ '': '' @ [CHR 0x22] @ ''b'' @ [CHR 0x22] @
           '', '' @ [CHR 0x22] @ ''freqStart'' @ [CHR 0x22] @ '': -3, '' @
           [CHR 0x22] @ ''freqStop'' @ [CHR 0x22] @ '': 4, '' @
           [CHR 0x22] @ ''url'' @ [CHR 0x22] @ '': '' @ [CHR 0x22] @ ''v'' @ [CHR 0x5C] @ ''n'' @ [CHR 0x22] @
           ''}, {'' @ [CHR 0x22] @ ''description'' @ [CHR 0x22] @ '': '' @ [CHR 0x22] @ ''a'' @ [CHR 0x22] @
           '', '' @ [CHR 0x22] @ ''freqStart'' @ [CHR 0x22] @ '': 1, '' @
           [CHR 0x22] @ ''freqStop'' @ [CHR 0x22] @ '': 2, '' @
           [CHR 0x22] @ ''url'' @ [CHR 0x22] @ '': '' @ [CHR 0x22] @ ''u'' @ [CHR 0x5C] @ ''n'' @ [CHR 0x22] @
           ''}]'') = render toks"
    by blast
  from a l have "toks = [LBracket,
      LBrace, TStr ''description'', Colon, TStr ''b'', Comma, TStr ''freqStart'', Colon, TInt (- 3), Comma,
      TStr ''freqStop'', Colon, TInt 4, Comma, TStr ''url'', Colon, TStr ''v\<newline>'', RBrace, Comma,
      LBrace, TStr ''description'', Colon, TStr ''a'', Comma, TStr ''freqStart'', Colon, TInt 1, Comma,
      TStr ''freqStop'', Colon, TInt 2, Comma, TStr ''url'', Colon, TStr ''u\<newline>'', RBrace,
      RBracket]"
    by (simp only: option.inject)
  with b have c: "(''[{'' @ [CHR 0x22] @ ''description'' @ [CHR 0x22] @ '': '' @ [CHR 0x22] @ ''b'' @ [CHR 0x22] @
           '', '' @ [CHR 0x22] @ ''freqStart'' @ [CHR 0x22] @ '': -3, '' @
           [CHR 0x22] @ ''freqStop'' @ [CHR 0x22] @ '': 4, '' @
           [CHR 0x22] @ ''url'' @ [CHR 0x22] @ '': '' @ [CHR 0x22] @ ''v'' @ [CHR 0x5C] @ ''n'' @ [CHR 0x22] @
           ''}, {'' @ [CHR 0x22] @ ''description'' @ [CHR 0x22] @ '': '' @ [CHR 0x22] @ ''a'' @ [CHR 0x22] @
           '', '' @ [CHR 0x22] @ ''freqStart'' @ [CHR 0x22] @ '': 1, '' @
           [CHR 0x22] @ ''freqStop'' @ [CHR 0x22] @ '': 2, '' @
           [CHR 0x22] @ ''url'' @ [CHR 0x22] @ '': '' @ [CHR 0x22] @ ''u'' @ [CHR 0x5C] @ ''n'' @ [CHR 0x22] @
           ''}]'') =
     render [LBracket,
      LBrace, TStr ''description'', Colon, TStr ''b'', Comma, TStr ''freqStart'', Colon, TInt (- 3), Comma,
      TStr ''freqStop'', Colon, TInt 4, Comma, TStr ''url'', Colon, TStr ''v\<newline>'', RBrace, Comma,
      LBrace, TStr ''description'', Colon, TStr ''a'', Comma, TStr ''freqStart'', Colon, TInt 1, Comma,
      TStr ''freqStop'', Colon, TInt 2, Comma, TStr ''url'', Colon, TStr ''u\<newline>'', RBrace,
      RBracket]"
    by (simp only:)
  from h n l c p q show ?thesis by blast
qed

end
